theory Spec2Isabelle
  imports Complex_Main "HOL-Library.AList"
begin

section \<open>Python values and exceptions\<close>

text \<open>
  The repository is Python. Its floats are modelled as the reals they approximate
  (\<open>real\<close>), its unbounded integers as \<open>int\<close>, its lists as HOL lists and its
  dictionaries as association lists in insertion order (Python dictionaries keep it).
  The built-in exceptions the modelled code can raise are values of \<open>error\<close>
  (\<open>AttributeError\<close>: an attribute is read before any assignment to it).
  \<open>InsufficientDataError\<close> is the name the specification gives to the failure of a
  calibration on a lane without samples; no statement of the source raises it.
  \<open>AlgorithmError\<close> stands for whatever a function of
  \<open>road_calibration.algorithms\<close> may raise.
\<close>

datatype error =
    ZeroDivisionError
  | IndexError
  | KeyError
  | ValueError
  | AttributeError
  | InsufficientDataError
  | AlgorithmError

section \<open>traffic\_manager/cell\_manager.py: class CellMng\<close>

text \<open>
  A vehicle target is a dictionary with the keys \<open>laneID\<close>, \<open>x\<close>, \<open>y\<close>, \<open>vx\<close>,
  \<open>vy\<close>; the fields of the record are these keys (prefixed where the plain key is
  taken by another record or is a one-letter name).
\<close>

record car =
  car_laneID :: int
  car_x :: real
  car_y :: real
  vx :: real
  vy :: real

text \<open>
  The attributes of a \<open>CellMng\<close> object, in the order \<open>__init__\<close> assigns them
  (\<open>end\<close> is written \<open>endpos\<close>). \<open>cacheRet\<close> is a number of frames, an integer
  as the docstring has it.
\<close>

record cell =
  laneID :: int
  order :: int
  valid :: bool
  len :: real
  start :: real
  endpos :: real
  q :: real
  k :: real
  v :: real
  aveCarNum :: real
  r1s :: real
  qs :: real
  r1 :: real
  r2 :: real
  vLat :: real
  dangerTime :: real
  dangerChange :: real
  danger :: real
  dangerTimeTop :: real
  cache :: "car list list"
  cacheRet :: int
  r2added :: bool

text \<open>
  \<open>__init__\<close>: the only statement that can raise is \<open>self.r1s = 1 / tt / fps\<close>,
  a \<open>ZeroDivisionError\<close> when \<open>tt\<close> or \<open>fps\<close> is zero; then no object exists.
\<close>

definition CellMng_init ::
  "int \<Rightarrow> int \<Rightarrow> bool \<Rightarrow> real \<Rightarrow> real \<Rightarrow> real \<Rightarrow> real \<Rightarrow> real \<Rightarrow> real \<Rightarrow> real \<Rightarrow> real \<Rightarrow> int
    \<Rightarrow> error + cell" where
  "CellMng_init laneID' order' valid' len' start' end' tt fps qs' r2' vLat' cacheRet' =
     (if tt = 0 \<or> fps = 0 then Inl ZeroDivisionError
      else Inr \<lparr> laneID = laneID', order = order', valid = valid', len = len',
                 start = start', endpos = end',
                 q = 0, k = 0, v = 0, aveCarNum = 0,
                 r1s = 1 / tt / fps, qs = qs', r1 = 0, r2 = r2', vLat = vLat',
                 dangerTime = 0, dangerChange = 0, danger = 0 + 0,
                 dangerTimeTop = 0.5,
                 cache = [], cacheRet = cacheRet', r2added = False \<rparr>)"

text \<open>
  \<open>updateCache\<close>: \<open>self.cache.append(cars)\<close>, then \<open>self.cache.pop(0)\<close> when the
  cache is longer than \<open>cacheRet\<close>. The list is not empty after the append, so
  \<open>pop(0)\<close> cannot raise.
\<close>

definition updateCache :: "car list \<Rightarrow> cell \<Rightarrow> cell" where
  "updateCache cars c =
     (let c1 = c\<lparr>cache := cache c @ [cars]\<rparr>
      in if int (length (cache c1)) > cacheRet c1 then c1\<lparr>cache := tl (cache c1)\<rparr> else c1)"

text \<open>
  A method that can raise after it has assigned some attributes returns the object as
  the exception leaves it, together with the exception or the returned value.

  \<open>updateTraffic\<close>: \<open>len(cars) / baseT\<close> raises when \<open>baseT\<close> is zero, before any
  assignment; \<open>aveCarNum / self.len\<close> raises when \<open>self.len\<close> is zero, after
  \<open>self.aveCarNum\<close> has been assigned. \<open>len(cars)\<close> is not zero where it divides.
\<close>

definition updateTraffic :: "cell \<Rightarrow> cell \<times> (error + unit)" where
  "updateTraffic c =
     (let baseT = (if int (length (cache c)) < cacheRet c then int (length (cache c))
                   else cacheRet c);
          cars = concat (cache c)
      in if baseT = 0 then (c, Inl ZeroDivisionError)
         else
           let a = real (length cars) / real_of_int baseT;
               c1 = c\<lparr>aveCarNum := a\<rparr>
           in if len c1 = 0 then (c1, Inl ZeroDivisionError)
              else
                let c2 = c1\<lparr>k := a / len c1 * 1000\<rparr>;
                    c3 = c2\<lparr>v := (if a = 0 then 0
                                  else \<bar>sum_list (map vy cars)\<bar> / real (length cars))\<rparr>
                in (c3\<lparr>q := k c3 * v c3 * 3.6\<rparr>, Inr ()))"

text \<open>\<open>updateR1\<close>: \<open>self.r1 = self.r1s * q / self.qs\<close>.\<close>

definition updateR1 :: "real \<Rightarrow> cell \<Rightarrow> cell \<times> (error + unit)" where
  "updateR1 flow c =
     (if qs c = 0 then (c, Inl ZeroDivisionError)
      else (c\<lparr>r1 := r1s c * flow / qs c\<rparr>, Inr ()))"

text \<open>
  The loop of \<open>updateDanger\<close> over the last frame: it returns at the first vehicle
  whose \<open>|vx|\<close> is above \<open>vLat\<close>.
\<close>

primrec scanFrame :: "real \<Rightarrow> car list \<Rightarrow> bool" where
  "scanFrame thr [] = False"
| "scanFrame thr (a # rest) = (if \<bar>vx a\<bar> > thr then True else scanFrame thr rest)"

text \<open>
  \<open>updateDanger\<close>: \<open>self.cache[-1]\<close> raises \<open>IndexError\<close> on an empty cache, before
  any assignment.
\<close>

definition updateDanger :: "cell \<Rightarrow> cell \<times> (error + bool \<times> int)" where
  "updateDanger c =
     (if cache c = [] then (c, Inl IndexError)
      else if length (last (cache c)) \<noteq> 0 then
        let c1 = c\<lparr>dangerTime := 0, dangerChange := 0, danger := 0\<rparr>
        in (c1, Inr (scanFrame (vLat c1) (last (cache c1)), order c1))
      else
        let c1 = c\<lparr>dangerTime := dangerTime c + r1 c\<rparr>;
            c2 = (if dangerTime c1 > dangerTimeTop c1
                  then c1\<lparr>dangerTime := dangerTimeTop c1\<rparr> else c1)
        in (c2\<lparr>danger := dangerTime c2 + dangerChange c2\<rparr>, Inr (False, order c2)))"

definition updateDangerPassive :: "cell \<Rightarrow> cell" where
  "updateDangerPassive c =
     (if \<not> r2added c then
        let c1 = c\<lparr>dangerChange := dangerChange c + r2 c\<rparr>;
            c2 = c1\<lparr>r2added := True\<rparr>
        in c2\<lparr>danger := dangerTime c2 + dangerChange c2\<rparr>
      else c)"

definition resetCellDetermineStatus :: "cell \<Rightarrow> cell" where
  "resetCellDetermineStatus c = c\<lparr>r2added := False\<rparr>"

definition resetDanger :: "cell \<Rightarrow> cell" where
  "resetDanger c = c\<lparr>dangerTime := 0, dangerChange := 0, danger := 0\<rparr>"

text \<open>
  A caller's use of a cell is a sequence of method calls. A call that raises leaves the
  object as the exception found it, and the caller may go on calling.
\<close>

datatype call =
    UpdateCache "car list"
  | UpdateTraffic
  | UpdateR1 real
  | UpdateDanger
  | UpdateDangerPassive
  | ResetCellDetermineStatus
  | ResetDanger

fun perform :: "call \<Rightarrow> cell \<Rightarrow> cell" where
  "perform (UpdateCache cars) c = updateCache cars c"
| "perform UpdateTraffic c = fst (updateTraffic c)"
| "perform (UpdateR1 flow) c = fst (updateR1 flow c)"
| "perform UpdateDanger c = fst (updateDanger c)"
| "perform UpdateDangerPassive c = updateDangerPassive c"
| "perform ResetCellDetermineStatus c = resetCellDetermineStatus c"
| "perform ResetDanger c = resetDanger c"

definition performAll :: "call list \<Rightarrow> cell \<Rightarrow> cell" where
  "performAll cs c = fold perform cs c"

section \<open>road\_calibration/\_\_init\_\_.py: class Calibrator\<close>

text \<open>
  Dictionaries are association lists in insertion order. \<open>d[key]\<close> raises \<open>KeyError\<close>
  on a missing key; \<open>d[key] = v\<close> is \<open>AList.update\<close>, which overwrites in place or
  appends. \<open>xs[i]\<close> on a list counts a negative index from the end and raises
  \<open>IndexError\<close> out of range.
\<close>

definition keys :: "('a \<times> 'b) list \<Rightarrow> 'a list" where
  "keys d = map fst d"

definition getitem :: "('a \<times> 'b) list \<Rightarrow> 'a \<Rightarrow> error + 'b" where
  "getitem d key = (case map_of d key of None \<Rightarrow> Inl KeyError | Some val \<Rightarrow> Inr val)"

definition position :: "'a list \<Rightarrow> int \<Rightarrow> error + nat" where
  "position xs i =
     (let n = int (length xs); j = (if i < 0 then n + i else i)
      in if 0 \<le> j \<and> j < n then Inr (nat j) else Inl IndexError)"

definition item :: "'a list \<Rightarrow> int \<Rightarrow> error + 'a" where
  "item xs i = (case position xs i of Inl e \<Rightarrow> Inl e | Inr j \<Rightarrow> Inr (xs ! j))"

text \<open>
  The dictionaries \<open>{'x': .., 'y': ..}\<close> of the vote counters and of the directions.
\<close>

record axes =
  x_of :: int
  y_of :: int

text \<open>
  The attributes of a \<open>Calibrator\<close>. A trajectory point \<open>[x, y]\<close> is a pair.
  \<open>intID\<close> and \<open>extID\<close> are not assigned by \<open>__init__\<close>: they are \<open>None\<close> until
  \<open>_distinguishInnerAndOutboardLaneID\<close> assigns them.
\<close>

record calibrator =
  clbPath :: string
  fps :: real
  laneWidth :: real
  emgcWidth :: real
  cellLen :: real
  qMerge :: real
  count :: int
  xyByLane :: "(int \<times> (real \<times> real) list) list"
  vxyCount :: "(int \<times> axes) list"
  laneIDs :: "int list"
  emgcIDs :: "int list"
  vDirDict :: "(int \<times> axes) list"
  xyMinMax :: "(int \<times> real list) list"
  globalXYMinMax :: "real list"
  polyPts :: "(int \<times> (real \<times> real) list) list"
  coef :: "(int \<times> real list) list"
  cells :: "(int \<times> bool list) list"
  intID :: "int option"
  extID :: "int option"

text \<open>
  The functions imported from \<open>road_calibration.algorithms\<close> are parameters of the
  model; each may raise.
\<close>

record algorithms =
  dbi :: "(real \<times> real) list \<Rightarrow> error + real"
  calQuartiles :: "(real \<times> real) list \<Rightarrow> error + (real \<times> real) list"
  poly2fit :: "(real \<times> real) list \<Rightarrow> error + real list"
  poly2fitFrozen :: "(real \<times> real) list \<Rightarrow> real \<Rightarrow> error + real list"
  cutPts :: "real \<Rightarrow> real \<Rightarrow> real \<Rightarrow> error + real list"

text \<open>
  A method returns the object as it leaves it and the exception it raised, if any.
  \<open>andThen\<close> runs the next statement unless an exception is under way; \<open>attempt\<close>
  evaluates an expression that may raise in a given state.
\<close>

type_synonym outcome = "calibrator \<times> error option"

definition andThen :: "outcome \<Rightarrow> (calibrator \<Rightarrow> outcome) \<Rightarrow> outcome" where
  "andThen r f = (case snd r of None \<Rightarrow> f (fst r) | Some e \<Rightarrow> r)"

definition attempt :: "error + 'a \<Rightarrow> calibrator \<Rightarrow> ('a \<Rightarrow> outcome) \<Rightarrow> outcome" where
  "attempt r s f = (case r of Inl e \<Rightarrow> (s, Some e) | Inr a \<Rightarrow> f a)"

definition Calibrator_init ::
  "string \<Rightarrow> real \<Rightarrow> real \<Rightarrow> real \<Rightarrow> real \<Rightarrow> real \<Rightarrow> calibrator" where
  "Calibrator_init clbPath' fps' laneWidth' emgcWidth' cellLen' qMerge' =
     \<lparr> clbPath = clbPath', fps = fps', laneWidth = laneWidth', emgcWidth = emgcWidth',
       cellLen = cellLen', qMerge = qMerge', count = 0,
       xyByLane = [], vxyCount = [], laneIDs = [], emgcIDs = [], vDirDict = [],
       xyMinMax = [], globalXYMinMax = [], polyPts = [], coef = [], cells = [],
       intID = None, extID = None \<rparr>"

subsection \<open>run\<close>

text \<open>
  \<open>vxyCount[laneID][axis] += d\<close>: a \<open>KeyError\<close> when the lane has no counter.
\<close>

definition addVote :: "int \<Rightarrow> (axes \<Rightarrow> axes) \<Rightarrow> calibrator \<Rightarrow> outcome" where
  "addVote lane f s =
     (if lane \<in> set (keys (vxyCount s))
      then (s\<lparr>vxyCount := AList.map_entry lane f (vxyCount s)\<rparr>, None)
      else (s, Some KeyError))"

text \<open>The body of the loop of \<open>run\<close> for one target.\<close>

definition runTarget :: "car \<Rightarrow> calibrator \<Rightarrow> outcome" where
  "runTarget t s =
     (let lane = (if car_laneID t > 100 then car_laneID t - 100 else car_laneID t);
          s1 = (if lane \<notin> set (keys (xyByLane s))
                then s\<lparr>xyByLane := AList.update lane [] (xyByLane s),
                       vxyCount := AList.update lane \<lparr>x_of = 0, y_of = 0\<rparr> (vxyCount s)\<rparr>
                else s);
          s2 = s1\<lparr>xyByLane :=
                    AList.map_entry lane (\<lambda>pts. pts @ [(car_x t, car_y t)]) (xyByLane s1)\<rparr>
      in andThen
           (if vx t > 0 then addVote lane (\<lambda>d. d\<lparr>x_of := x_of d + 1\<rparr>) s2
            else if vx t < 0 then addVote lane (\<lambda>d. d\<lparr>x_of := x_of d - 1\<rparr>) s2
            else (s2, None))
           (\<lambda>s3. if vy t > 0 then addVote lane (\<lambda>d. d\<lparr>y_of := y_of d + 1\<rparr>) s3
                  else if vy t < 0 then addVote lane (\<lambda>d. d\<lparr>y_of := y_of d - 1\<rparr>) s3
                  else (s3, None)))"

fun runLoop :: "car list \<Rightarrow> calibrator \<Rightarrow> outcome" where
  "runLoop [] s = (s, None)"
| "runLoop (t # rest) s =
     (case runTarget t s of
        (s1, None) \<Rightarrow> runLoop rest s1
      | (s1, Some e) \<Rightarrow> (s1, Some e))"

definition run :: "car list \<Rightarrow> calibrator \<Rightarrow> outcome" where
  "run msg s = runLoop msg (s\<lparr>count := count s + 1\<rparr>)"

subsection \<open>calibrate\<close>

text \<open>
  \<open>_distinguishNormalAndEmgcLanes\<close>: \<open>max\<close> of an empty list raises \<open>ValueError\<close>.
\<close>

definition distinguishNormalAndEmgcLanes :: "calibrator \<Rightarrow> outcome" where
  "distinguishNormalAndEmgcLanes s =
     (let ids = keys (xyByLane s)
      in if ids = [] then (s, Some ValueError)
         else
           let m0 = Max (set ids);
               m = (if m0 mod 2 = 1 then m0 + 1 else m0)
           in (s\<lparr>laneIDs := [1..m], emgcIDs := [1, m]\<rparr>, None))"

definition distinguishInnerAndOutboardLaneID :: "algorithms \<Rightarrow> calibrator \<Rightarrow> outcome" where
  "distinguishInnerAndOutboardLaneID A s =
     attempt (item (emgcIDs s) 0) s (\<lambda>e0.
     attempt (item (emgcIDs s) 1) s (\<lambda>e1.
       let lane2 = e0 + 1; laneN_1 = e1 - 1
       in attempt (getitem (xyByLane s) lane2) s (\<lambda>pts2.
          attempt (dbi A pts2) s (\<lambda>dbi2.
          attempt (getitem (xyByLane s) laneN_1) s (\<lambda>ptsN_1.
          attempt (dbi A ptsN_1) s (\<lambda>dbiN_1.
            if dbi2 < dbiN_1
            then (s\<lparr>intID := Some lane2, extID := Some laneN_1\<rparr>, None)
            else (s\<lparr>intID := Some laneN_1, extID := Some lane2\<rparr>, None)))))))"

text \<open>
  \<open>_distinguishLaneDirection\<close>: the direction a vote counter gives, the loop over the
  lanes that are not emergency lanes, and the loop over the emergency lanes.
\<close>

definition voteDir :: "axes \<Rightarrow> axes" where
  "voteDir c =
     (let d = \<lparr>x_of = 1, y_of = 1\<rparr>;
          d1 = (if x_of c < 0 then d\<lparr>x_of := - 1\<rparr> else d)
      in if y_of c < 0 then d1\<lparr>y_of := - 1\<rparr> else d1)"

fun dirLoop :: "int list \<Rightarrow> calibrator \<Rightarrow> outcome" where
  "dirLoop [] s = (s, None)"
| "dirLoop (i # rest) s =
     (if i \<in> set (emgcIDs s) then dirLoop rest s
      else case getitem (vxyCount s) i of
             Inl e \<Rightarrow> (s, Some e)
           | Inr c \<Rightarrow> dirLoop rest (s\<lparr>vDirDict := AList.update i (voteDir c) (vDirDict s)\<rparr>))"

fun emgcDirLoop :: "int list \<Rightarrow> calibrator \<Rightarrow> outcome" where
  "emgcDirLoop [] s = (s, None)"
| "emgcDirLoop (i # rest) s =
     (case getitem (vDirDict s) (if i = 1 then i + 1 else i - 1) of
        Inl e \<Rightarrow> (s, Some e)
      | Inr tmp \<Rightarrow> emgcDirLoop rest (s\<lparr>vDirDict := AList.update i tmp (vDirDict s)\<rparr>))"

definition distinguishLaneDirection :: "calibrator \<Rightarrow> outcome" where
  "distinguishLaneDirection s =
     (let s0 = s\<lparr>vDirDict := []\<rparr>
      in andThen (dirLoop (laneIDs s0) s0) (\<lambda>s1. emgcDirLoop (emgcIDs s1) s1))"

text \<open>
  \<open>_calibXYMinMax\<close>: the loop runs over the keys of \<open>xyByLane\<close>. \<open>list.sort\<close> is
  stable, as \<open>sort_key\<close> is. \<open>[0]\<close> on an empty list raises \<open>IndexError\<close>.
  \<open>globalXYMinMax\<close> has four entries throughout the loop.
\<close>

fun xyMinMaxLoop :: "int list \<Rightarrow> calibrator \<Rightarrow> outcome" where
  "xyMinMaxLoop [] s = (s, None)"
| "xyMinMaxLoop (lane # rest) s =
     (case getitem (xyByLane s) lane of
        Inl e \<Rightarrow> (s, Some e)
      | Inr pts \<Rightarrow>
          let byx = sort_key fst pts;
              s1 = s\<lparr>xyByLane := AList.update lane byx (xyByLane s)\<rparr>
          in if byx = [] then (s1, Some IndexError)
             else
               let xmin = fst (hd byx); xmax = fst (last byx);
                   byy = sort_key snd byx;
                   s2 = s1\<lparr>xyByLane := AList.update lane byy (xyByLane s1)\<rparr>;
                   ymin = snd (hd byy); ymax = snd (last byy);
                   s3 = s2\<lparr>xyMinMax := AList.update lane [xmin, xmax, ymin, ymax] (xyMinMax s2)\<rparr>;
                   g = globalXYMinMax s3;
                   g0 = g[0 := min (g ! 0) xmin];
                   g1 = g0[1 := max (g0 ! 1) xmax];
                   g2 = g1[2 := min (g1 ! 2) ymin];
                   g3 = g2[3 := max (g2 ! 3) ymax]
               in xyMinMaxLoop rest (s3\<lparr>globalXYMinMax := g3\<rparr>))"

definition calibXYMinMax :: "calibrator \<Rightarrow> outcome" where
  "calibXYMinMax s =
     (let s0 = s\<lparr>xyMinMax := [], globalXYMinMax := [0, 0, 0, 0]\<rparr>
      in xyMinMaxLoop (keys (xyByLane s0)) s0)"

text \<open>\<open>_getLaneQuartilesPoints\<close>.\<close>

fun quartilesLoop :: "algorithms \<Rightarrow> int list \<Rightarrow> calibrator \<Rightarrow> outcome" where
  "quartilesLoop A [] s = (s, None)"
| "quartilesLoop A (i # rest) s =
     (if i \<in> set (emgcIDs s) then quartilesLoop A rest s
      else case getitem (xyByLane s) i of
             Inl e \<Rightarrow> (s, Some e)
           | Inr pts \<Rightarrow>
               (case calQuartiles A pts of
                  Inl e \<Rightarrow> (s, Some e)
                | Inr featPoints \<Rightarrow>
                    quartilesLoop A rest
                      (s\<lparr>polyPts := AList.update i featPoints (polyPts s)\<rparr>)))"

definition getLaneQuartilesPoints :: "algorithms \<Rightarrow> calibrator \<Rightarrow> outcome" where
  "getLaneQuartilesPoints A s =
     (let s0 = s\<lparr>polyPts := []\<rparr> in quartilesLoop A (laneIDs s0) s0)"

text \<open>
  \<open>_calculateLanesFunction\<close>. \<open>np.polyval(np.polyder(np.poly1d(c)), 0)\<close> is the
  coefficient of the linear term of the polynomial with the coefficients \<open>c\<close>, highest
  power first: the entry before the last, or zero when there is none.
\<close>

definition derivativeAt0 :: "real list \<Rightarrow> real" where
  "derivativeAt0 c = (if 2 \<le> length c then c ! (length c - 2) else 0)"

fun fitLoop :: "algorithms \<Rightarrow> int option \<Rightarrow> real list \<Rightarrow> int list \<Rightarrow> calibrator \<Rightarrow> outcome" where
  "fitLoop A ext extCoef [] s = (s, None)"
| "fitLoop A ext extCoef (i # rest) s =
     (if i \<in> set (emgcIDs s) \<or> Some i = ext then fitLoop A ext extCoef rest s
      else case getitem (polyPts s) i of
             Inl e \<Rightarrow> (s, Some e)
           | Inr pts \<Rightarrow>
               (case item extCoef 0 of
                  Inl e \<Rightarrow> (s, Some e)
                | Inr c0 \<Rightarrow>
                    (case poly2fitFrozen A pts c0 of
                       Inl e \<Rightarrow> (s, Some e)
                     | Inr a \<Rightarrow>
                         fitLoop A ext extCoef rest
                           (s\<lparr>coef := AList.update i a (coef s)\<rparr>))))"

definition attribute :: "'a option \<Rightarrow> error + 'a" where
  "attribute a = (case a of None \<Rightarrow> Inl AttributeError | Some val \<Rightarrow> Inr val)"

definition calculateLanesFunction :: "algorithms \<Rightarrow> calibrator \<Rightarrow> outcome" where
  "calculateLanesFunction A s =
     (let s0 = s\<lparr>coef := []\<rparr>
      in attempt (attribute (extID s0)) s0 (\<lambda>ext.
         attempt (getitem (polyPts s0) ext) s0 (\<lambda>extPts.
         attempt (poly2fit A extPts) s0 (\<lambda>extCoef.
           let s1 = s0\<lparr>coef := AList.update ext extCoef (coef s0)\<rparr>
           in andThen (fitLoop A (extID s1) extCoef (laneIDs s1) s1) (\<lambda>s2.
              attempt (attribute (intID s2)) s2 (\<lambda>inner.
              attempt (getitem (coef s2) inner) s2 (\<lambda>intCoef.
                let d = (laneWidth s2 + emgcWidth s2) / 2;
                    slope = derivativeAt0 extCoef;
                    dY = d * sqrt (1 + slope ^ 2)
                in attempt (getitem (coef s2) ext) s2 (\<lambda>ce.
                   attempt (item ce 2) s2 (\<lambda>ce2.
                   attempt (getitem (coef s2) inner) s2 (\<lambda>ci.
                   attempt (item ci 2) s2 (\<lambda>ci2.
                   attempt (item extCoef 2) s2 (\<lambda>ext2.
                   attempt (item intCoef 2) s2 (\<lambda>int2.
                     let aExtEmgc = (if ce2 > ci2
                                     then [extCoef ! 0, extCoef ! 1, ext2 + dY]
                                     else [extCoef ! 0, extCoef ! 1, ext2 - dY]);
                         aIntEmgc = (if ce2 > ci2
                                     then [intCoef ! 0, intCoef ! 1, int2 - dY]
                                     else [intCoef ! 0, intCoef ! 1, int2 + dY])
                     in attempt (item (emgcIDs s2) 0) s2 (\<lambda>e0.
                          let s3 = s2\<lparr>coef := AList.update e0
                                     (if inner = e0 + 1 then aIntEmgc else aExtEmgc) (coef s2)\<rparr>
                          in attempt (item (emgcIDs s3) 1) s3 (\<lambda>e1.
                               (s3\<lparr>coef := AList.update e1
                                     (if inner = e0 + 1 then aExtEmgc else aIntEmgc) (coef s3)\<rparr>,
                                None))))))))))))))))"

text \<open>
  \<open>_calibCells\<close>. \<open>np.sum(xy[1] >= pts) - 1\<close> is the number of cut points not above
  \<open>y\<close>, less one; \<open>count[order] += 1\<close> indexes as a list does. A point \<open>[x, y]\<close> has
  two entries, so \<open>len(xy)\<close> is never zero. \<open>[0] * cellNum\<close> is empty when
  \<open>cellNum\<close> is not positive.
\<close>

fun countLoop :: "real list \<Rightarrow> (real \<times> real) list \<Rightarrow> int list \<Rightarrow> error + int list" where
  "countLoop pts [] cnt = Inr cnt"
| "countLoop pts (xy # rest) cnt =
     (case position cnt (int (length (filter (\<lambda>p. snd xy \<ge> p) pts)) - 1) of
        Inl e \<Rightarrow> Inl e
      | Inr j \<Rightarrow> countLoop pts rest (cnt[j := cnt ! j + 1]))"

fun cellCountLoop ::
  "real list \<Rightarrow> int \<Rightarrow> int list \<Rightarrow> (int \<times> int list) list \<Rightarrow> calibrator
    \<Rightarrow> calibrator \<times> (error + (int \<times> int list) list)" where
  "cellCountLoop pts cellNum [] cellCount s = (s, Inr cellCount)"
| "cellCountLoop pts cellNum (i # rest) cellCount s =
     (let s1 = (if i \<in> set (keys (xyByLane s)) then s
                else s\<lparr>xyByLane := AList.update i [] (xyByLane s)\<rparr>)
      in case getitem (xyByLane s1) i of
           Inl e \<Rightarrow> (s1, Inl e)
         | Inr xys \<Rightarrow>
             (case countLoop pts xys (replicate (nat cellNum) 0) of
                Inl e \<Rightarrow> (s1, Inl e)
              | Inr cnt \<Rightarrow> cellCountLoop pts cellNum rest (AList.update i cnt cellCount) s1))"

definition validity :: "int \<Rightarrow> int list \<Rightarrow> error + bool list" where
  "validity cellNum cnt =
     (if cnt \<noteq> [] \<and> (sum_list cnt = 0 \<or> cellNum = 0) then Inl ZeroDivisionError
      else Inr (map (\<lambda>n. real_of_int n / real_of_int (sum_list cnt)
                          > 1 / real_of_int cellNum / 5) cnt))"

fun validLoop :: "int \<Rightarrow> (int \<times> int list) list \<Rightarrow> int list \<Rightarrow> calibrator \<Rightarrow> outcome" where
  "validLoop cellNum cellCount [] s = (s, None)"
| "validLoop cellNum cellCount (i # rest) s =
     (if i \<in> set (emgcIDs s) then validLoop cellNum cellCount rest s
      else case getitem cellCount i of
             Inl e \<Rightarrow> (s, Some e)
           | Inr cnt \<Rightarrow>
               (case validity cellNum cnt of
                  Inl e \<Rightarrow> (s, Some e)
                | Inr vl \<Rightarrow>
                    (case getitem (vDirDict s) i of
                       Inl e \<Rightarrow> (s, Some e)
                     | Inr dir \<Rightarrow>
                         validLoop cellNum cellCount rest
                           (s\<lparr>cells := AList.update i (if y_of dir < 0 then rev vl else vl)
                                         (cells s)\<rparr>))))"

fun emgcCellsLoop :: "int \<Rightarrow> int list \<Rightarrow> calibrator \<Rightarrow> calibrator" where
  "emgcCellsLoop cellNum [] s = s"
| "emgcCellsLoop cellNum (i # rest) s =
     emgcCellsLoop cellNum rest
       (s\<lparr>cells := AList.update i (replicate (nat cellNum) False) (cells s)\<rparr>)"

definition calibCells :: "algorithms \<Rightarrow> calibrator \<Rightarrow> outcome" where
  "calibCells A s =
     attempt (item (globalXYMinMax s) 2) s (\<lambda>ymin.
     attempt (item (globalXYMinMax s) 3) s (\<lambda>ymax.
     attempt (cutPts A ymin ymax (cellLen s)) s (\<lambda>pts.
       let cellNum = int (length pts) - 1
       in case cellCountLoop pts cellNum (laneIDs s) [] s of
            (s1, Inl e) \<Rightarrow> (s1, Some e)
          | (s1, Inr cellCount) \<Rightarrow>
              andThen (validLoop cellNum cellCount (laneIDs s1) s1) (\<lambda>s2.
                (emgcCellsLoop cellNum (emgcIDs s2) s2, None)))))"

definition calibrate :: "algorithms \<Rightarrow> calibrator \<Rightarrow> outcome" where
  "calibrate A s =
     andThen (distinguishNormalAndEmgcLanes s) (\<lambda>s1.
     andThen (distinguishInnerAndOutboardLaneID A s1) (\<lambda>s2.
     andThen (distinguishLaneDirection s2) (\<lambda>s3.
     andThen (calibXYMinMax s3) (\<lambda>s4.
     andThen (getLaneQuartilesPoints A s4) (\<lambda>s5.
     andThen (calculateLanesFunction A s5) (\<lambda>s6.
     calibCells A s6))))))"

datatype command = Run "car list" | Calibrate

fun execute :: "algorithms \<Rightarrow> command \<Rightarrow> calibrator \<Rightarrow> calibrator" where
  "execute A (Run msg) s = fst (run msg s)"
| "execute A Calibrate s = fst (calibrate A s)"

definition executeAll :: "algorithms \<Rightarrow> command list \<Rightarrow> calibrator \<Rightarrow> calibrator" where
  "executeAll A cs s = fold (execute A) cs s"

text \<open>
  Two predicates on cells used in the proofs: what every call keeps true of the danger
  attributes while \<open>r1\<close> is not negative, and the state of the danger attributes of a
  cell whose \<open>r1\<close> is still zero and that was never boosted.
\<close>

definition dangerInv :: "cell \<Rightarrow> bool" where
  "dangerInv c \<longleftrightarrow>
     0 \<le> r1 c \<and> 0 \<le> dangerTime c \<and> dangerTime c \<le> dangerTimeTop c
     \<and> danger c = dangerTime c + dangerChange c"

definition quiet :: "cell \<Rightarrow> bool" where
  "quiet c \<longleftrightarrow>
     r1 c = 0 \<and> dangerTime c = 0 \<and> dangerChange c = 0 \<and> danger c = 0
     \<and> 0 \<le> dangerTimeTop c"

text \<open>
  Concrete data: the cell \<open>CellMng(2, 0, True, 50, 0, 50, 5, 20, 1800, 0.3, 1, 3)\<close> as
  \<open>__init__\<close> leaves it, a vehicle with given \<open>vx\<close> and \<open>vy\<close>, and that cell
  after three frames.
\<close>

definition scenarioCell :: cell where
  "scenarioCell =
     \<lparr> laneID = 2, order = 0, valid = True, len = 50, start = 0, endpos = 50,
       q = 0, k = 0, v = 0, aveCarNum = 0,
       r1s = 1 / 5 / 20, qs = 1800, r1 = 0, r2 = 0.3, vLat = 1,
       dangerTime = 0, dangerChange = 0, danger = 0 + 0, dangerTimeTop = 0.5,
       cache = [], cacheRet = 3, r2added = False \<rparr>"

definition vehicle :: "real \<Rightarrow> real \<Rightarrow> car" where
  "vehicle a b = \<lparr> car_laneID = 2, car_x = 0, car_y = 25, vx = a, vy = b \<rparr>"

definition scenarioOpposed :: cell where
  "scenarioOpposed = fold updateCache [[vehicle 0 10], [vehicle 0 (- 10)], []] scenarioCell"

definition scenarioAligned :: cell where
  "scenarioAligned = fold updateCache [[vehicle 0 10], [vehicle 0 10], []] scenarioCell"

section \<open>Predicates and data for the proofs on the calibrator\<close>

text \<open>
  \<open>keeps P r\<close>: the object a method leaves satisfies \<open>P\<close>. \<open>laneTop s\<close> is the
  value \<open>m\<close> that \<open>_distinguishNormalAndEmgcLanes\<close> computes from the keys of
  \<open>xyByLane\<close>. \<open>hasSamples s i\<close>: lane \<open>i\<close> has at least one accumulated sample.
  \<open>votersHaveSamples s\<close>: every lane with a vote counter has samples.
\<close>

definition keeps :: "(calibrator \<Rightarrow> bool) \<Rightarrow> outcome \<Rightarrow> bool" where
  "keeps P r \<longleftrightarrow> P (fst r)"

definition laneTop :: "calibrator \<Rightarrow> int" where
  "laneTop s =
     (let m0 = Max (set (keys (xyByLane s))) in if m0 mod 2 = 1 then m0 + 1 else m0)"

definition hasSamples :: "calibrator \<Rightarrow> int \<Rightarrow> bool" where
  "hasSamples s i = (case map_of (xyByLane s) i of Some (p # ps) \<Rightarrow> True | _ \<Rightarrow> False)"


text \<open>
  Concrete data, for the instances at the end only: no general theorem depends on it.
  The functions of \<open>road_calibration.algorithms\<close> are instantiated
  with simple total functions: the dispersion of a lane is its number of samples, the
  feature points are the first five samples, a fitted curve is the vertical line through
  the first point, and the cut points are \<open>lo, lo + step, ...\<close> up to the first one
  not below \<open>hi\<close>. \<open>observed\<close> has seen two frames with vehicles on lanes 2 and 3;
  \<open>calibrated\<close> is what \<open>calibrate\<close> makes of it. \<open>sparse\<close> has seen lanes 2
  and 4 only, \<open>gapped\<close> lanes 2, 3 and 5 only.
\<close>

definition exampleAlgorithms :: algorithms where
  "exampleAlgorithms =
     \<lparr> dbi = (\<lambda>pts. Inr (real (length pts))),
       calQuartiles = (\<lambda>pts. Inr (take 5 pts)),
       poly2fit = (\<lambda>pts. if pts = [] then Inl AlgorithmError else Inr [0, 0, fst (hd pts)]),
       poly2fitFrozen =
         (\<lambda>pts a. if pts = [] then Inl AlgorithmError else Inr [a, 0, fst (hd pts)]),
       cutPts = (\<lambda>lo hi step. if step \<le> 0 then Inl AlgorithmError
                 else Inr (map (\<lambda>i. lo + real i * step) [0..<nat \<lceil>(hi - lo) / step\<rceil> + 1])) \<rparr>"

definition target :: "int \<Rightarrow> real \<Rightarrow> real \<Rightarrow> real \<Rightarrow> real \<Rightarrow> car" where
  "target lane px py sx sy = \<lparr> car_laneID = lane, car_x = px, car_y = py, vx = sx, vy = sy \<rparr>"

definition observed :: calibrator where
  "observed =
     executeAll exampleAlgorithms
       [Run [target 2 2 10 0 20, target 103 6 60 (- 1) (- 20)],
        Run [target 2 2 30 0 20, target 3 6 40 0 (- 20)]]
       (Calibrator_init ''clb.yml'' 20 3.75 3.5 50 0)"

definition calibrated :: calibrator where
  "calibrated =
     \<lparr>clbPath = ''clb.yml'', fps = 20, laneWidth = 3.75, emgcWidth = 3.5,
       cellLen = 50, qMerge = 0, count = 2,
       xyByLane = [(2, [(2, 10), (2, 30)]), (3, [(6, 40), (6, 60)]), (1, []), (4, [])],
       vxyCount = [(2, \<lparr>x_of = 0, y_of = 2\<rparr>), (3, \<lparr>x_of = - 1, y_of = - 2\<rparr>)],
       laneIDs = [1, 2, 3, 4], emgcIDs = [1, 4],
       vDirDict = [(2, \<lparr>x_of = 1, y_of = 1\<rparr>), (3, \<lparr>x_of = - 1, y_of = - 1\<rparr>),
                   (1, \<lparr>x_of = 1, y_of = 1\<rparr>), (4, \<lparr>x_of = - 1, y_of = - 1\<rparr>)],
       xyMinMax = [(2, [2, 2, 10, 30]), (3, [6, 6, 40, 60])],
       globalXYMinMax = [0, 6, 0, 60],
       polyPts = [(2, [(2, 10), (2, 30)]), (3, [(6, 40), (6, 60)])],
       coef = [(2, [0, 0, 2]), (3, [0, 0, 6]), (1, [0, 0, - 1.625]), (4, [0, 0, 9.625])],
       cells = [(2, [True, False]), (3, [True, True]), (1, [False, False]),
                (4, [False, False])],
       intID = Some 3, extID = Some 2\<rparr>"



section \<open>Properties of the cell\<close>

lemma scenarioCell_init:
  "CellMng_init 2 0 True 50 0 50 5 20 1800 0.3 1 3 = Inr scenarioCell"
  by (simp add: CellMng_init_def scenarioCell_def)

text \<open>
  C9. \<open>updateCache\<close> changes the cache and nothing else: the cell after the call is the
  cell before it with another cache, so \<open>q\<close>, \<open>k\<close>, \<open>v\<close>, \<open>aveCarNum\<close>,
  \<open>dangerTime\<close>, \<open>dangerChange\<close>, \<open>danger\<close>, \<open>r1\<close> and \<open>r2added\<close> are what they were.
\<close>

theorem updateCache_frame:
  "updateCache cars c = c\<lparr>cache := cache (updateCache cars c)\<rparr>
   \<and> q (updateCache cars c) = q c
   \<and> k (updateCache cars c) = k c
   \<and> v (updateCache cars c) = v c
   \<and> aveCarNum (updateCache cars c) = aveCarNum c
   \<and> dangerTime (updateCache cars c) = dangerTime c
   \<and> dangerChange (updateCache cars c) = dangerChange c
   \<and> danger (updateCache cars c) = danger c
   \<and> r1 (updateCache cars c) = r1 c
   \<and> r2added (updateCache cars c) = r2added c"
  by (simp add: updateCache_def Let_def)

subsection \<open>The cache is a window over the last frames\<close>

lemma updateCache_cacheRet: "cacheRet (updateCache cars c) = cacheRet c"
  by (simp add: updateCache_def Let_def)

lemma fold_updateCache_cacheRet: "cacheRet (fold updateCache fs c) = cacheRet c"
  by (induction fs arbitrary: c) (simp_all add: updateCache_cacheRet)

lemma updateCache_cache:
  "cache (updateCache cars c) =
     (if int (length (cache c)) + 1 > cacheRet c then tl (cache c @ [cars]) else cache c @ [cars])"
  by (simp add: updateCache_def Let_def)

lemma updateCache_step:
  assumes "int (length (cache c)) \<le> cacheRet c"
  shows "cache (updateCache cars c) =
           drop (Suc (length (cache c)) - nat (cacheRet c)) (cache c @ [cars])"
proof (cases "int (length (cache c)) = cacheRet c")
  case True
  then have "Suc (length (cache c)) - nat (cacheRet c) = Suc 0" by linarith
  moreover have "drop (Suc 0) (cache c @ [cars]) = tl (cache c @ [cars])"
    by (simp only: drop_Suc drop_0)
  ultimately show ?thesis using True by (simp only: updateCache_cache) simp
next
  case False
  with assms have "Suc (length (cache c)) - nat (cacheRet c) = 0" by linarith
  with False assms show ?thesis by (simp add: updateCache_cache)
qed

lemma fold_updateCache_cache:
  assumes "int (length (cache c)) \<le> cacheRet c"
  shows "cache (fold updateCache fs c) =
           drop (length (cache c) + length fs - nat (cacheRet c)) (cache c @ fs)"
  using assms
proof (induction fs arbitrary: c)
  case Nil
  then show ?case by simp
next
  case (Cons f fs)
  let ?c = "updateCache f c"
  define m where "m = Suc (length (cache c)) - nat (cacheRet c)"
  have step: "cache ?c = drop m (cache c @ [f])"
    unfolding m_def using Cons.prems by (rule updateCache_step)
  have m_le: "m \<le> length (cache c @ [f])"
    by (simp add: m_def)
  have len: "length (cache ?c) = Suc (length (cache c)) - m"
    by (simp add: step)
  have le: "int (length (cache ?c)) \<le> cacheRet ?c"
    using Cons.prems by (simp add: len m_def updateCache_cacheRet)
  have app: "cache ?c @ fs = drop m (cache c @ f # fs)"
  proof -
    have "drop m ((cache c @ [f]) @ fs) = drop m (cache c @ [f]) @ fs"
      using m_le by (simp only: drop_append) simp
    then show ?thesis by (simp add: step)
  qed
  have idx: "(length (cache ?c) + length fs - nat (cacheRet ?c)) + m
             = length (cache c) + length (f # fs) - nat (cacheRet c)"
    using Cons.prems by (simp add: len m_def updateCache_cacheRet)
  have "cache (fold updateCache (f # fs) c) = cache (fold updateCache fs ?c)" by simp
  also have "\<dots> = drop (length (cache ?c) + length fs - nat (cacheRet ?c)) (cache ?c @ fs)"
    using le by (rule Cons.IH)
  also have "\<dots> = drop ((length (cache ?c) + length fs - nat (cacheRet ?c)) + m) (cache c @ f # fs)"
    by (simp only: app drop_drop)
  also have "\<dots> = drop (length (cache c) + length (f # fs) - nat (cacheRet c)) (cache c @ f # fs)"
    by (simp only: idx)
  finally show ?case .
qed

text \<open>
  C5. A cell whose cache is not longer than \<open>cacheRet\<close> (as at construction, where the
  cache is empty and \<open>cacheRet\<close> is not negative) keeps it so under every sequence of
  \<open>updateCache\<close> calls; the cache then holds the last \<open>cacheRet\<close> entries of the old
  cache followed by the appended frames, in order of arrival. From an empty cache, after
  \<open>cacheRet + j\<close> appends its length is \<open>cacheRet\<close> and its content is the frames
  without the first \<open>j\<close>.
\<close>

theorem updateCache_window:
  assumes "int (length (cache c)) \<le> cacheRet c"
  shows "int (length (cache (fold updateCache fs c))) \<le> cacheRet c
       \<and> cache (fold updateCache fs c) =
           drop (length (cache c) + length fs - nat (cacheRet c)) (cache c @ fs)
       \<and> (cache c = [] \<and> length fs = nat (cacheRet c) + j \<longrightarrow>
            int (length (cache (fold updateCache fs c))) = cacheRet c
          \<and> cache (fold updateCache fs c) = drop j fs)"
  using assms by (auto simp add: fold_updateCache_cache)

theorem updateCache_window_witness:
  "int (length (cache scenarioCell)) \<le> cacheRet scenarioCell
   \<and> length [[vehicle 0 10], [vehicle 0 9], [], [vehicle 1 8]] = nat (cacheRet scenarioCell) + 1
   \<and> int (length (cache (fold updateCache [[vehicle 0 10], [vehicle 0 9], [], [vehicle 1 8]]
        scenarioCell))) = cacheRet scenarioCell
   \<and> cache (fold updateCache [[vehicle 0 10], [vehicle 0 9], [], [vehicle 1 8]] scenarioCell)
       = [[vehicle 0 9], [], [vehicle 1 8]]"
  using updateCache_window [of scenarioCell "[[vehicle 0 10], [vehicle 0 9], [], [vehicle 1 8]]" 1]
  by (simp add: scenarioCell_def)

subsection \<open>The danger score\<close>

text \<open>
  C7. A second \<open>updateDangerPassive\<close> with no \<open>resetCellDetermineStatus\<close> in between
  changes nothing: the cell is the one the first call left, and \<open>dangerChange\<close> has
  grown by \<open>r2\<close> once if the flag \<open>r2added\<close> was clear before the first call, and not
  at all if it was set.
\<close>

theorem updateDangerPassive_idem:
  "updateDangerPassive (updateDangerPassive c) = updateDangerPassive c
   \<and> dangerChange (updateDangerPassive (updateDangerPassive c))
       = (if r2added c then dangerChange c else dangerChange c + r2 c)"
  by (simp add: updateDangerPassive_def Let_def)

lemma init_dangerInv:
  "CellMng_init a b c d e f g h i j k' l = Inr c0 \<Longrightarrow> dangerInv c0"
  by (auto simp: CellMng_init_def dangerInv_def split: if_splits)

lemma init_quiet:
  "CellMng_init a b c d e f g h i j k' l = Inr c0 \<Longrightarrow> quiet c0"
  by (auto simp: CellMng_init_def quiet_def split: if_splits)

lemma updateCache_dangerInv: "dangerInv c \<Longrightarrow> dangerInv (updateCache cars c)"
  by (simp add: dangerInv_def updateCache_def Let_def)

lemma updateTraffic_dangerInv: "dangerInv c \<Longrightarrow> dangerInv (fst (updateTraffic c))"
  by (simp add: dangerInv_def updateTraffic_def Let_def)

lemma updateR1_dangerInv:
  "dangerInv c \<Longrightarrow> 0 \<le> r1s c * flow / qs c \<Longrightarrow> dangerInv (fst (updateR1 flow c))"
  by (simp add: dangerInv_def updateR1_def)

lemma updateDanger_dangerInv: "dangerInv c \<Longrightarrow> dangerInv (fst (updateDanger c))"
  by (auto simp: dangerInv_def updateDanger_def Let_def)

lemma updateDangerPassive_dangerInv: "dangerInv c \<Longrightarrow> dangerInv (updateDangerPassive c)"
  by (simp add: dangerInv_def updateDangerPassive_def Let_def)

lemma resetCellDetermineStatus_dangerInv:
  "dangerInv c \<Longrightarrow> dangerInv (resetCellDetermineStatus c)"
  by (simp add: dangerInv_def resetCellDetermineStatus_def)

lemma resetDanger_dangerInv: "dangerInv c \<Longrightarrow> dangerInv (resetDanger c)"
  by (simp add: dangerInv_def resetDanger_def)

lemma perform_consts:
  "r1s (perform cl c) = r1s c \<and> qs (perform cl c) = qs c
   \<and> dangerTimeTop (perform cl c) = dangerTimeTop c"
  by (cases cl)
     (simp_all add: updateCache_def updateTraffic_def updateR1_def updateDanger_def
        updateDangerPassive_def resetCellDetermineStatus_def resetDanger_def Let_def)

lemma perform_order: "order (perform cl c) = order c"
  by (cases cl)
     (simp_all add: updateCache_def updateTraffic_def updateR1_def updateDanger_def
        updateDangerPassive_def resetCellDetermineStatus_def resetDanger_def Let_def)

lemma perform_dangerInv:
  assumes "dangerInv c" and "\<And>flow. cl = UpdateR1 flow \<Longrightarrow> 0 \<le> r1s c * flow / qs c"
  shows "dangerInv (perform cl c)"
  using assms
  by (cases cl)
     (simp_all add: updateCache_dangerInv updateTraffic_dangerInv updateR1_dangerInv
        updateDanger_dangerInv updateDangerPassive_dangerInv
        resetCellDetermineStatus_dangerInv resetDanger_dangerInv)

lemma performAll_dangerInv:
  assumes "dangerInv c"
    and "\<And>flow. UpdateR1 flow \<in> set cs \<Longrightarrow> 0 \<le> r1s c * flow / qs c"
  shows "dangerInv (performAll cs c)"
  using assms unfolding performAll_def
proof (induction cs arbitrary: c)
  case Nil
  then show ?case by simp
next
  case (Cons cl cs)
  have "dangerInv (perform cl c)"
    using Cons.prems by (intro perform_dangerInv) auto
  moreover have "\<And>flow. UpdateR1 flow \<in> set cs \<Longrightarrow>
      0 \<le> r1s (perform cl c) * flow / qs (perform cl c)"
    using Cons.prems(2) by (simp add: perform_consts)
  ultimately have "dangerInv (fold perform cs (perform cl c))" by (rule Cons.IH)
  then show ?case by simp
qed

lemma performAll_dangerTimeTop:
  "dangerTimeTop (performAll cs c) = dangerTimeTop c"
  unfolding performAll_def
  by (induction cs arbitrary: c) (simp_all add: perform_consts)

text \<open>
  C6. From construction, after every sequence of calls of the methods of the cell
  (\<open>updateCache\<close> with any frames, \<open>updateTraffic\<close>, \<open>updateDanger\<close>,
  \<open>updateDangerPassive\<close>, \<open>resetCellDetermineStatus\<close>, \<open>resetDanger\<close>, and
  \<open>updateR1\<close> with flows that give a rate \<open>r1s * q / qs\<close> that is not negative),
  \<open>dangerTime\<close> is between \<open>0\<close> and \<open>dangerTimeTop\<close>, which is \<open>0.5\<close>, and
  \<open>danger\<close> is \<open>dangerTime + dangerChange\<close>. The sequences of \<open>updateDanger\<close>,
  \<open>updateDangerPassive\<close>, \<open>resetCellDetermineStatus\<close> and \<open>resetDanger\<close> calls alone
  are among them: they hold no \<open>updateR1\<close>.
\<close>

theorem danger_invariant:
  assumes "CellMng_init lane ordr vld clen cstart cend tt hz qstd rate2 vlat cret = Inr c0"
    and "\<forall>flow. UpdateR1 flow \<in> set cs \<longrightarrow> 0 \<le> r1s c0 * flow / qs c0"
  shows "0 \<le> dangerTime (performAll cs c0)
       \<and> dangerTime (performAll cs c0) \<le> dangerTimeTop (performAll cs c0)
       \<and> dangerTimeTop (performAll cs c0) = 0.5
       \<and> danger (performAll cs c0)
           = dangerTime (performAll cs c0) + dangerChange (performAll cs c0)"
proof -
  have "dangerInv c0" using assms(1) by (rule init_dangerInv)
  moreover have "\<And>flow. UpdateR1 flow \<in> set cs \<Longrightarrow> 0 \<le> r1s c0 * flow / qs c0"
    using assms(2) by blast
  ultimately have "dangerInv (performAll cs c0)" by (rule performAll_dangerInv)
  moreover have "dangerTimeTop c0 = 0.5"
    using assms(1) by (auto simp: CellMng_init_def split: if_splits)
  ultimately show ?thesis by (simp add: dangerInv_def performAll_dangerTimeTop)
qed

text \<open>
  An instance that reaches the cap: one vehicle, then \<open>updateR1(45000)\<close>, which sets
  \<open>r1 = 0.25\<close>, then an empty frame. The first \<open>updateDanger\<close> gives
  \<open>dangerTime = 0.25\<close>, the second \<open>0.5\<close>, the third \<open>0.75\<close> cut back to \<open>0.5\<close>;
  a boost then makes \<open>danger = 0.5 + 0.3\<close>.
\<close>

theorem danger_invariant_witness:
  "CellMng_init 2 0 True 50 0 50 5 20 1800 0.3 1 3 = Inr scenarioCell
   \<and> 0 \<le> r1s scenarioCell * 45000 / qs scenarioCell
   \<and> r1 (performAll [UpdateCache [vehicle 0 10], UpdateR1 45000, UpdateCache []]
        scenarioCell) = 0.25
   \<and> dangerTime (performAll [UpdateCache [vehicle 0 10], UpdateR1 45000, UpdateCache [],
        UpdateDanger] scenarioCell) = 0.25
   \<and> dangerTime (performAll [UpdateCache [vehicle 0 10], UpdateR1 45000, UpdateCache [],
        UpdateDanger, UpdateDanger, UpdateDanger, UpdateDangerPassive] scenarioCell) = 0.5
   \<and> dangerTimeTop (performAll [UpdateCache [vehicle 0 10], UpdateR1 45000, UpdateCache [],
        UpdateDanger, UpdateDanger, UpdateDanger, UpdateDangerPassive] scenarioCell) = 0.5
   \<and> dangerChange (performAll [UpdateCache [vehicle 0 10], UpdateR1 45000, UpdateCache [],
        UpdateDanger, UpdateDanger, UpdateDanger, UpdateDangerPassive] scenarioCell) = 0.3
   \<and> danger (performAll [UpdateCache [vehicle 0 10], UpdateR1 45000, UpdateCache [],
        UpdateDanger, UpdateDanger, UpdateDanger, UpdateDangerPassive] scenarioCell) = 0.8"
proof -
  have h: "\<forall>flow. UpdateR1 flow \<in> set [UpdateCache [vehicle 0 10], UpdateR1 45000,
        UpdateCache [], UpdateDanger, UpdateDanger, UpdateDanger, UpdateDangerPassive]
      \<longrightarrow> 0 \<le> r1s scenarioCell * flow / qs scenarioCell"
    by (simp add: scenarioCell_def)
  from danger_invariant [OF scenarioCell_init h] scenarioCell_init
  show ?thesis
    by (simp add: performAll_def scenarioCell_def updateCache_def updateR1_def updateDanger_def
        updateDangerPassive_def Let_def)
qed

lemma perform_quiet:
  assumes "quiet c" and "cl \<noteq> UpdateDangerPassive" and "\<And>flow. cl \<noteq> UpdateR1 flow"
  shows "quiet (perform cl c)"
  using assms
  by (cases cl)
     (auto simp: quiet_def updateCache_def updateTraffic_def updateDanger_def
        resetCellDetermineStatus_def resetDanger_def Let_def)

lemma performAll_quiet:
  assumes "quiet c" and "UpdateDangerPassive \<notin> set cs"
    and "\<And>flow. UpdateR1 flow \<notin> set cs"
  shows "quiet (performAll cs c)"
  using assms unfolding performAll_def
proof (induction cs arbitrary: c)
  case Nil
  then show ?case by simp
next
  case (Cons cl cs)
  have "quiet (perform cl c)"
    using Cons.prems by (intro perform_quiet) auto
  then have "quiet (fold perform cs (perform cl c))"
    using Cons.prems by (intro Cons.IH) auto
  then show ?case by simp
qed

lemma updateDanger_empty_frame:
  assumes "quiet c" and "cache c \<noteq> []" and "last (cache c) = []"
  shows "snd (updateDanger c) = Inr (False, order c)
       \<and> dangerTime (fst (updateDanger c)) = 0 \<and> danger (fst (updateDanger c)) = 0"
  using assms by (simp add: quiet_def updateDanger_def Let_def)

text \<open>
  C10. \<open>__init__\<close> sets \<open>r1\<close> to zero. After every sequence of calls from construction
  with no \<open>updateR1\<close> and no \<open>updateDangerPassive\<close>, \<open>dangerTime\<close> and \<open>danger\<close>
  are zero; and where the most recent frame of the cache is empty, \<open>updateDanger\<close>
  returns \<open>(False, order)\<close> and leaves \<open>dangerTime\<close> and \<open>danger\<close> at zero.
\<close>

theorem no_growth_before_updateR1:
  assumes "CellMng_init lane ordr vld clen cstart cend tt hz qstd rate2 vlat cret = Inr c0"
    and "UpdateDangerPassive \<notin> set cs" and "\<forall>flow. UpdateR1 flow \<notin> set cs"
  shows "r1 c0 = 0
       \<and> dangerTime (performAll cs c0) = 0 \<and> danger (performAll cs c0) = 0
       \<and> (cache (performAll cs c0) \<noteq> [] \<and> last (cache (performAll cs c0)) = [] \<longrightarrow>
            snd (updateDanger (performAll cs c0)) = Inr (False, order c0)
          \<and> dangerTime (fst (updateDanger (performAll cs c0))) = 0
          \<and> danger (fst (updateDanger (performAll cs c0))) = 0)"
proof -
  have q0: "quiet c0" using assms(1) by (rule init_quiet)
  then have q: "quiet (performAll cs c0)"
    using assms(2,3) by (intro performAll_quiet) auto
  have ord: "order (performAll cs c0) = order c0"
    unfolding performAll_def
    by (induction cs arbitrary: c0) (simp_all add: perform_order)
  from q0 q updateDanger_empty_frame [OF q] show ?thesis
    by (simp add: quiet_def ord)
qed

theorem no_growth_before_updateR1_witness:
  "CellMng_init 2 0 True 50 0 50 5 20 1800 0.3 1 3 = Inr scenarioCell
   \<and> UpdateDangerPassive \<notin> set [UpdateCache [vehicle 0 10], UpdateDanger, UpdateCache [],
        UpdateDanger, UpdateCache []]
   \<and> cache (performAll [UpdateCache [vehicle 0 10], UpdateDanger, UpdateCache [],
        UpdateDanger, UpdateCache []] scenarioCell) = [[vehicle 0 10], [], []]
   \<and> snd (updateDanger (performAll [UpdateCache [vehicle 0 10], UpdateDanger, UpdateCache [],
        UpdateDanger, UpdateCache []] scenarioCell)) = Inr (False, 0)
   \<and> dangerTime (fst (updateDanger (performAll [UpdateCache [vehicle 0 10], UpdateDanger,
        UpdateCache [], UpdateDanger, UpdateCache []] scenarioCell))) = 0
   \<and> danger (fst (updateDanger (performAll [UpdateCache [vehicle 0 10], UpdateDanger,
        UpdateCache [], UpdateDanger, UpdateCache []] scenarioCell))) = 0"
  using no_growth_before_updateR1 [OF scenarioCell_init,
      of "[UpdateCache [vehicle 0 10], UpdateDanger, UpdateCache [], UpdateDanger, UpdateCache []]"]
    scenarioCell_init
  by (simp add: performAll_def scenarioCell_def updateCache_def updateDanger_def Let_def)

subsection \<open>Traffic parameters\<close>

lemma sum_list_abs_nonneg:
  "(\<And>a. a \<in> set xs \<Longrightarrow> 0 \<le> vy a) \<Longrightarrow> \<bar>sum_list (map vy xs)\<bar> = (\<Sum>a\<leftarrow>xs. \<bar>vy a\<bar>)"
proof (induction xs)
  case Nil
  then show ?case by simp
next
  case (Cons a xs)
  then have "0 \<le> sum_list (map vy xs)" by (intro sum_list_nonneg) auto
  moreover have "0 \<le> vy a" using Cons.prems by simp
  moreover have "\<bar>sum_list (map vy xs)\<bar> = (\<Sum>a\<leftarrow>xs. \<bar>vy a\<bar>)"
    using Cons by simp
  ultimately show ?case by simp
qed

lemma sum_list_abs_nonpos:
  "(\<And>a. a \<in> set xs \<Longrightarrow> vy a \<le> 0) \<Longrightarrow> \<bar>sum_list (map vy xs)\<bar> = (\<Sum>a\<leftarrow>xs. \<bar>vy a\<bar>)"
proof (induction xs)
  case Nil
  then show ?case by simp
next
  case (Cons a xs)
  then have "sum_list (map vy xs) \<le> 0" by (intro sum_list_nonpos) auto
  moreover have "vy a \<le> 0" using Cons.prems by simp
  moreover have "\<bar>sum_list (map vy xs)\<bar> = (\<Sum>a\<leftarrow>xs. \<bar>vy a\<bar>)"
    using Cons by simp
  ultimately show ?case by simp
qed

lemma updateTraffic_returns:
  assumes "concat (cache c) \<noteq> []" and "cacheRet c \<noteq> 0" and "len c \<noteq> 0"
  shows "updateTraffic c =
    (c\<lparr>aveCarNum := real (length (concat (cache c))) /
                      real_of_int (if int (length (cache c)) < cacheRet c
                                   then int (length (cache c)) else cacheRet c),
       k := real (length (concat (cache c))) /
                      real_of_int (if int (length (cache c)) < cacheRet c
                                   then int (length (cache c)) else cacheRet c) / len c * 1000,
       v := \<bar>sum_list (map vy (concat (cache c)))\<bar> / real (length (concat (cache c))),
       q := real (length (concat (cache c))) /
                      real_of_int (if int (length (cache c)) < cacheRet c
                                   then int (length (cache c)) else cacheRet c) / len c * 1000
            * (\<bar>sum_list (map vy (concat (cache c)))\<bar> / real (length (concat (cache c))))
            * 3.6\<rparr>, Inr ())"
proof -
  have ne: "cache c \<noteq> []" using assms(1) by auto
  then have "length (cache c) \<noteq> 0" by simp
  then show ?thesis
    using assms by (auto simp add: updateTraffic_def Let_def)
qed

text \<open>
  C1 (as the code has it). For a cell that caches at least one vehicle, with
  \<open>cacheRet\<close> and \<open>len\<close> not zero, \<open>updateTraffic\<close> returns and sets \<open>v\<close> to the
  absolute value of the sum of \<open>vy\<close> over the cached vehicles, divided by their number.
  That is the mean of \<open>|vy|\<close> when no two cached vehicles have speeds of opposite sign.
  \<open>q\<close> is \<open>k * v * 3.6\<close>.
\<close>

theorem updateTraffic_speed:
  assumes "concat (cache c) \<noteq> []" and "cacheRet c \<noteq> 0" and "len c \<noteq> 0"
  shows "snd (updateTraffic c) = Inr ()
       \<and> v (fst (updateTraffic c))
           = \<bar>sum_list (map vy (concat (cache c)))\<bar> / real (length (concat (cache c)))
       \<and> ((\<forall>a \<in> set (concat (cache c)). 0 \<le> vy a) \<or> (\<forall>a \<in> set (concat (cache c)). vy a \<le> 0)
            \<longrightarrow> v (fst (updateTraffic c))
                 = (\<Sum>a\<leftarrow>concat (cache c). \<bar>vy a\<bar>)
                   / real (length (concat (cache c))))
       \<and> q (fst (updateTraffic c)) = k (fst (updateTraffic c)) * v (fst (updateTraffic c)) * 3.6"
  using sum_list_abs_nonneg [of "concat (cache c)"] sum_list_abs_nonpos [of "concat (cache c)"]
  by (auto simp add: updateTraffic_returns [OF assms])

theorem updateTraffic_speed_witness:
  "concat (cache scenarioAligned) \<noteq> [] \<and> cacheRet scenarioAligned \<noteq> 0
   \<and> len scenarioAligned \<noteq> 0
   \<and> snd (updateTraffic scenarioAligned) = Inr ()
   \<and> v (fst (updateTraffic scenarioAligned)) = 10
   \<and> q (fst (updateTraffic scenarioAligned)) = 480"
  using updateTraffic_speed [of scenarioAligned]
  by (simp add: scenarioAligned_def scenarioCell_def updateCache_def updateTraffic_def
        vehicle_def Let_def)

text \<open>
  The scenario of the specification: \<open>cacheRet = 3\<close>, \<open>len = 50\<close> and the cache
  \<open>[[{vy: 10}], [{vy: -10}], []]\<close>. The mean of \<open>|vy|\<close> is \<open>10\<close>;
  \<open>updateTraffic\<close> sets \<open>aveCarNum = 2/3\<close>, \<open>k = 40/3\<close>, \<open>v = 0\<close> and \<open>q = 0\<close>.
\<close>

theorem updateTraffic_opposed_speeds:
  "cache scenarioOpposed = [[vehicle 0 10], [vehicle 0 (- 10)], []]
   \<and> cacheRet scenarioOpposed = 3 \<and> len scenarioOpposed = 50
   \<and> sum_list (map (abs \<circ> vy) (concat (cache scenarioOpposed)))
       / real (length (concat (cache scenarioOpposed))) = 10
   \<and> snd (updateTraffic scenarioOpposed) = Inr ()
   \<and> aveCarNum (fst (updateTraffic scenarioOpposed)) = 2 / 3
   \<and> k (fst (updateTraffic scenarioOpposed)) = 40 / 3
   \<and> v (fst (updateTraffic scenarioOpposed)) = 0
   \<and> v (fst (updateTraffic scenarioOpposed)) \<noteq> 10
   \<and> q (fst (updateTraffic scenarioOpposed)) = 0"
  by (simp add: scenarioOpposed_def scenarioCell_def updateCache_def updateTraffic_def
        vehicle_def Let_def)

text \<open>
  C2. On a cell as \<open>__init__\<close> leaves it (no \<open>updateCache\<close> yet, \<open>cacheRet\<close> not
  negative), \<open>updateTraffic\<close> does not return: \<open>baseT\<close> is zero and
  \<open>len(cars) / baseT\<close> raises \<open>ZeroDivisionError\<close>, the cell unchanged.
\<close>

theorem updateTraffic_fresh_cell:
  assumes "CellMng_init lane ordr vld clen cstart cend tt hz qstd rate2 vlat cret = Inr c0"
    and "0 \<le> cret"
  shows "updateTraffic c0 = (c0, Inl ZeroDivisionError)"
  using assms by (auto simp: CellMng_init_def updateTraffic_def Let_def split: if_splits)

theorem updateTraffic_fresh_cell_witness:
  "CellMng_init 2 0 True 50 0 50 5 20 1800 0.3 1 3 = Inr scenarioCell \<and> (0::int) \<le> 3
   \<and> updateTraffic scenarioCell = (scenarioCell, Inl ZeroDivisionError)"
  using updateTraffic_fresh_cell [OF scenarioCell_init] scenarioCell_init by simp

section \<open>Properties of the calibrator\<close>

lemma andThen_simps:
  "andThen (s, None) f = f s"
  "andThen (s, Some e) f = (s, Some e)"
  by (simp_all add: andThen_def)

lemma attempt_simps:
  "attempt (Inl e) s f = (s, Some e)"
  "attempt (Inr a) s f = f a"
  by (simp_all add: attempt_def)

lemma andThen_None:
  "andThen r f = (s', None) \<Longrightarrow> \<exists>s1. r = (s1, None) \<and> f s1 = (s', None)"
  by (cases r) (auto simp: andThen_def split: option.splits)

lemma andThen_cases:
  "(\<exists>e. snd r = Some e \<and> andThen r f = r) \<or> (snd r = None \<and> andThen r f = f (fst r))"
  by (cases r) (auto simp: andThen_def split: option.splits)

subsection \<open>What each step changes\<close>


lemma distinguishInnerAndOutboardLaneID_keeps:
  "emgcIDs (fst (distinguishInnerAndOutboardLaneID A s)) = emgcIDs s"
  "laneIDs (fst (distinguishInnerAndOutboardLaneID A s)) = laneIDs s"
  "vxyCount (fst (distinguishInnerAndOutboardLaneID A s)) = vxyCount s"
  "xyByLane (fst (distinguishInnerAndOutboardLaneID A s)) = xyByLane s"
  "cells (fst (distinguishInnerAndOutboardLaneID A s)) = cells s"
  by (simp_all add: distinguishInnerAndOutboardLaneID_def attempt_def Let_def
        split: sum.splits)

lemma dirLoop_keeps:
  "emgcIDs (fst (dirLoop is s)) = emgcIDs s"
  "laneIDs (fst (dirLoop is s)) = laneIDs s"
  "vxyCount (fst (dirLoop is s)) = vxyCount s"
  "xyByLane (fst (dirLoop is s)) = xyByLane s"
  "cells (fst (dirLoop is s)) = cells s"
  by (induction "is" arbitrary: s) (simp_all split: sum.splits)

lemma emgcDirLoop_keeps:
  "emgcIDs (fst (emgcDirLoop is s)) = emgcIDs s"
  "laneIDs (fst (emgcDirLoop is s)) = laneIDs s"
  "vxyCount (fst (emgcDirLoop is s)) = vxyCount s"
  "xyByLane (fst (emgcDirLoop is s)) = xyByLane s"
  "cells (fst (emgcDirLoop is s)) = cells s"
  by (induction "is" arbitrary: s) (simp_all split: sum.splits)

lemma distinguishLaneDirection_keeps:
  "emgcIDs (fst (distinguishLaneDirection s)) = emgcIDs s"
  "laneIDs (fst (distinguishLaneDirection s)) = laneIDs s"
  "vxyCount (fst (distinguishLaneDirection s)) = vxyCount s"
  "xyByLane (fst (distinguishLaneDirection s)) = xyByLane s"
  "cells (fst (distinguishLaneDirection s)) = cells s"
  using andThen_cases [of "dirLoop (laneIDs s) (s\<lparr>vDirDict := []\<rparr>)"
      "\<lambda>s1. emgcDirLoop (emgcIDs s1) s1"]
  by (auto simp: distinguishLaneDirection_def Let_def dirLoop_keeps emgcDirLoop_keeps)

lemma xyMinMaxLoop_keeps:
  "emgcIDs (fst (xyMinMaxLoop ls s)) = emgcIDs s"
  "laneIDs (fst (xyMinMaxLoop ls s)) = laneIDs s"
  "vxyCount (fst (xyMinMaxLoop ls s)) = vxyCount s"
  "vDirDict (fst (xyMinMaxLoop ls s)) = vDirDict s"
  "cells (fst (xyMinMaxLoop ls s)) = cells s"
  by (induction ls arbitrary: s) (simp_all add: Let_def split: sum.splits)

lemma calibXYMinMax_keeps:
  "emgcIDs (fst (calibXYMinMax s)) = emgcIDs s"
  "laneIDs (fst (calibXYMinMax s)) = laneIDs s"
  "vxyCount (fst (calibXYMinMax s)) = vxyCount s"
  "vDirDict (fst (calibXYMinMax s)) = vDirDict s"
  "cells (fst (calibXYMinMax s)) = cells s"
  by (simp_all add: calibXYMinMax_def Let_def xyMinMaxLoop_keeps)

lemma quartilesLoop_keeps:
  "emgcIDs (fst (quartilesLoop A is s)) = emgcIDs s"
  "laneIDs (fst (quartilesLoop A is s)) = laneIDs s"
  "vxyCount (fst (quartilesLoop A is s)) = vxyCount s"
  "vDirDict (fst (quartilesLoop A is s)) = vDirDict s"
  "xyByLane (fst (quartilesLoop A is s)) = xyByLane s"
  "cells (fst (quartilesLoop A is s)) = cells s"
  by (induction "is" arbitrary: s) (simp_all split: sum.splits)

lemma getLaneQuartilesPoints_keeps:
  "emgcIDs (fst (getLaneQuartilesPoints A s)) = emgcIDs s"
  "laneIDs (fst (getLaneQuartilesPoints A s)) = laneIDs s"
  "vxyCount (fst (getLaneQuartilesPoints A s)) = vxyCount s"
  "vDirDict (fst (getLaneQuartilesPoints A s)) = vDirDict s"
  "xyByLane (fst (getLaneQuartilesPoints A s)) = xyByLane s"
  "cells (fst (getLaneQuartilesPoints A s)) = cells s"
  by (simp_all add: getLaneQuartilesPoints_def Let_def quartilesLoop_keeps)

lemma fitLoop_keeps:
  "emgcIDs (fst (fitLoop A ext ec is s)) = emgcIDs s"
  "laneIDs (fst (fitLoop A ext ec is s)) = laneIDs s"
  "vxyCount (fst (fitLoop A ext ec is s)) = vxyCount s"
  "vDirDict (fst (fitLoop A ext ec is s)) = vDirDict s"
  "xyByLane (fst (fitLoop A ext ec is s)) = xyByLane s"
  "cells (fst (fitLoop A ext ec is s)) = cells s"
  "intID (fst (fitLoop A ext ec is s)) = intID s"
  "laneWidth (fst (fitLoop A ext ec is s)) = laneWidth s"
  by (induction "is" arbitrary: s) (simp_all split: sum.splits)

lemma keeps_attempt:
  assumes "P s" and "\<And>a. r = Inr a \<Longrightarrow> keeps P (f a)"
  shows "keeps P (attempt r s f)"
  using assms by (cases r) (simp_all add: attempt_def keeps_def)

lemma keeps_andThen:
  assumes "keeps P r" and "\<And>s1. P s1 \<Longrightarrow> keeps P (f s1)"
  shows "keeps P (andThen r f)"
  using assms by (cases r) (auto simp: andThen_def keeps_def split: option.splits)

lemma keeps_Let:
  assumes "\<And>y. y = x \<Longrightarrow> keeps P (f y)"
  shows "keeps P (Let x f)"
  using assms by simp

lemma keeps_done: "P s \<Longrightarrow> keeps P (s, e)"
  by (simp add: keeps_def)

lemma calculateLanesFunction_keeps':
  "keeps (\<lambda>s'. emgcIDs s' = emgcIDs s \<and> laneIDs s' = laneIDs s \<and> vxyCount s' = vxyCount s
            \<and> vDirDict s' = vDirDict s \<and> xyByLane s' = xyByLane s \<and> cells s' = cells s)
     (calculateLanesFunction A s)"
  unfolding calculateLanesFunction_def
  by (intro keeps_attempt keeps_andThen keeps_Let keeps_done)
     (simp_all add: keeps_def fitLoop_keeps)

lemma calculateLanesFunction_keeps:
  "emgcIDs (fst (calculateLanesFunction A s)) = emgcIDs s"
  "laneIDs (fst (calculateLanesFunction A s)) = laneIDs s"
  "vxyCount (fst (calculateLanesFunction A s)) = vxyCount s"
  "vDirDict (fst (calculateLanesFunction A s)) = vDirDict s"
  "xyByLane (fst (calculateLanesFunction A s)) = xyByLane s"
  "cells (fst (calculateLanesFunction A s)) = cells s"
  using calculateLanesFunction_keeps' [of s A] by (simp_all add: keeps_def)

lemma hasSamples_iff:
  "hasSamples s i \<longleftrightarrow> (\<exists>pts. map_of (xyByLane s) i = Some pts \<and> pts \<noteq> [])"
  by (auto simp: hasSamples_def split: option.splits list.splits)


lemma cellCountLoop_keeps:
  "emgcIDs (fst (cellCountLoop pts n is cc s)) = emgcIDs s"
  "laneIDs (fst (cellCountLoop pts n is cc s)) = laneIDs s"
  "vxyCount (fst (cellCountLoop pts n is cc s)) = vxyCount s"
  "vDirDict (fst (cellCountLoop pts n is cc s)) = vDirDict s"
  "cells (fst (cellCountLoop pts n is cc s)) = cells s"
  by (induction "is" arbitrary: s cc) (simp_all add: Let_def split: sum.splits)

lemma validLoop_keeps:
  "emgcIDs (fst (validLoop n cc is s)) = emgcIDs s"
  "laneIDs (fst (validLoop n cc is s)) = laneIDs s"
  "vxyCount (fst (validLoop n cc is s)) = vxyCount s"
  "vDirDict (fst (validLoop n cc is s)) = vDirDict s"
  "xyByLane (fst (validLoop n cc is s)) = xyByLane s"
  by (induction "is" arbitrary: s) (simp_all split: sum.splits)

lemma emgcCellsLoop_keeps:
  "emgcIDs (emgcCellsLoop n is s) = emgcIDs s"
  "laneIDs (emgcCellsLoop n is s) = laneIDs s"
  "vxyCount (emgcCellsLoop n is s) = vxyCount s"
  "vDirDict (emgcCellsLoop n is s) = vDirDict s"
  "xyByLane (emgcCellsLoop n is s) = xyByLane s"
  by (induction "is" arbitrary: s) simp_all



lemma cellCountLoop_samples:
  "hasSamples s i \<Longrightarrow> hasSamples (fst (cellCountLoop pts n is cc s)) i"
proof (induction "is" arbitrary: s cc)
  case Nil
  then show ?case by simp
next
  case (Cons j rest)
  define s1 where "s1 = (if j \<in> set (keys (xyByLane s)) then s
             else s\<lparr>xyByLane := AList.update j [] (xyByLane s)\<rparr>)"
  have s1: "hasSamples s1 i"
  proof (cases "j \<in> set (keys (xyByLane s))")
    case True
    with Cons.prems show ?thesis by (simp add: s1_def)
  next
    case False
    then have "map_of (xyByLane s) j = None"
      by (simp add: keys_def map_of_eq_None_iff)
    with Cons.prems have "i \<noteq> j" by (auto simp: hasSamples_iff)
    with Cons.prems False show ?thesis by (simp add: s1_def hasSamples_iff update_conv')
  qed
  have unfold: "cellCountLoop pts n (j # rest) cc s =
      (case getitem (xyByLane s1) j of
         Inl e \<Rightarrow> (s1, Inl e)
       | Inr xys \<Rightarrow>
           (case countLoop pts xys (replicate (nat n) 0) of
              Inl e \<Rightarrow> (s1, Inl e)
            | Inr cnt \<Rightarrow> cellCountLoop pts n rest (AList.update j cnt cc) s1))"
    by (simp only: cellCountLoop.simps Let_def s1_def)
  show ?case
    unfolding unfold using s1 by (auto split: sum.splits intro: Cons.IH)
qed

lemma calibCells_keeps':
  "keeps (\<lambda>s'. emgcIDs s' = emgcIDs s \<and> laneIDs s' = laneIDs s \<and> vxyCount s' = vxyCount s
            \<and> vDirDict s' = vDirDict s \<and> (hasSamples s i \<longrightarrow> hasSamples s' i))
     (calibCells A s)"
  unfolding calibCells_def
proof (intro keeps_attempt keeps_Let)
  fix pts :: "real list" and n :: int
  let ?P = "\<lambda>s'. emgcIDs s' = emgcIDs s \<and> laneIDs s' = laneIDs s \<and> vxyCount s' = vxyCount s
            \<and> vDirDict s' = vDirDict s \<and> (hasSamples s i \<longrightarrow> hasSamples s' i)"
  obtain s1 r where c: "cellCountLoop pts n (laneIDs s) [] s = (s1, r)"
    by (cases "cellCountLoop pts n (laneIDs s) [] s")
  have s1: "?P s1"
    using cellCountLoop_keeps [of pts n "laneIDs s" "[]" s]
      cellCountLoop_samples [of s i pts n "laneIDs s" "[]"] c by simp
  show "keeps ?P (case cellCountLoop pts n (laneIDs s) [] s of
                    (s1, Inl e) \<Rightarrow> (s1, Some e)
                  | (s1, Inr cellCount) \<Rightarrow>
                      andThen (validLoop n cellCount (laneIDs s1) s1)
                        (\<lambda>s2. (emgcCellsLoop n (emgcIDs s2) s2, None)))"
  proof (cases r)
    case (Inl e)
    with c s1 show ?thesis by (simp add: keeps_def)
  next
    case (Inr cc)
    have "keeps ?P (andThen (validLoop n cc (laneIDs s1) s1)
              (\<lambda>s2. (emgcCellsLoop n (emgcIDs s2) s2, None)))"
    proof (rule keeps_andThen)
      show "keeps ?P (validLoop n cc (laneIDs s1) s1)"
        using s1 by (simp add: keeps_def validLoop_keeps hasSamples_def)
    next
      fix s2 assume "?P s2"
      then show "keeps ?P (emgcCellsLoop n (emgcIDs s2) s2, None)"
        by (simp add: keeps_def emgcCellsLoop_keeps hasSamples_def)
    qed
    with c Inr show ?thesis by simp
  qed
qed simp_all

lemma calibCells_keeps:
  "emgcIDs (fst (calibCells A s)) = emgcIDs s"
  "laneIDs (fst (calibCells A s)) = laneIDs s"
  "vxyCount (fst (calibCells A s)) = vxyCount s"
  "vDirDict (fst (calibCells A s)) = vDirDict s"
  "hasSamples s i \<Longrightarrow> hasSamples (fst (calibCells A s)) i"
  using calibCells_keeps' [of s i A] by (simp_all add: keeps_def)

lemma emgcCellsLoop_cells:
  "map_of (cells (emgcCellsLoop n is s)) i =
     (if i \<in> set is then Some (replicate (nat n) False) else map_of (cells s) i)"
  by (induction "is" arbitrary: s) (auto simp: update_conv')

lemma calibCells_success:
  assumes "calibCells A s = (s', None)"
  shows "\<exists>n. \<forall>i \<in> set (emgcIDs s). map_of (cells s') i = Some (replicate n False)"
proof -
  from assms obtain ymin where 1: "item (globalXYMinMax s) 2 = Inr ymin"
    by (cases "item (globalXYMinMax s) 2") (simp_all add: calibCells_def attempt_simps)
  from assms 1 obtain ymax where 2: "item (globalXYMinMax s) 3 = Inr ymax"
    by (cases "item (globalXYMinMax s) 3") (simp_all add: calibCells_def attempt_simps)
  from assms 1 2 obtain pts where 3: "cutPts A ymin ymax (cellLen s) = Inr pts"
    by (cases "cutPts A ymin ymax (cellLen s)") (simp_all add: calibCells_def attempt_simps)
  define n where "n = int (length pts) - 1"
  obtain s1 r where c: "cellCountLoop pts n (laneIDs s) [] s = (s1, r)"
    by (cases "cellCountLoop pts n (laneIDs s) [] s")
  have e1: "emgcIDs s1 = emgcIDs s"
    using cellCountLoop_keeps(1) [of pts n "laneIDs s" "[]" s] c by simp
  from assms 1 2 3 c obtain cc where r: "r = Inr cc"
    by (cases r) (simp_all add: calibCells_def attempt_simps n_def Let_def)
  from assms 1 2 3 c r
  have "andThen (validLoop n cc (laneIDs s1) s1)
          (\<lambda>s2. (emgcCellsLoop n (emgcIDs s2) s2, None)) = (s', None)"
    by (simp add: calibCells_def attempt_simps n_def Let_def)
  then obtain s2 where v: "validLoop n cc (laneIDs s1) s1 = (s2, None)"
    and s': "s' = emgcCellsLoop n (emgcIDs s2) s2"
    by (auto dest!: andThen_None)
  have "emgcIDs s2 = emgcIDs s"
    using validLoop_keeps(1) [of n cc "laneIDs s1" s1] v e1 by simp
  then have "\<forall>i \<in> set (emgcIDs s). map_of (cells s') i = Some (replicate (nat n) False)"
    by (simp add: s' emgcCellsLoop_cells)
  then show ?thesis ..
qed

lemma laneTop_even: "even (laneTop s)"
  by (simp add: laneTop_def Let_def) presburger

lemma laneTop_unique:
  assumes "even m" and "Max (set (keys (xyByLane s))) \<le> m"
    and "\<forall>e. even e \<and> Max (set (keys (xyByLane s))) \<le> e \<longrightarrow> m \<le> e"
  shows "m = laneTop s"
proof -
  let ?M = "Max (set (keys (xyByLane s)))"
  have 1: "even (laneTop s)" by (rule laneTop_even)
  have 2: "?M \<le> laneTop s" by (simp add: laneTop_def Let_def)
  have 3: "laneTop s \<le> e" if "even e" "?M \<le> e" for e
    using that by (simp add: laneTop_def Let_def) presburger
  from assms(3) 1 2 have "m \<le> laneTop s" by blast
  moreover from 3 [OF assms(1,2)] have "laneTop s \<le> m" .
  ultimately show ?thesis by simp
qed

lemma distinguishNormalAndEmgcLanes_result:
  assumes "keys (xyByLane s) \<noteq> []"
  shows "distinguishNormalAndEmgcLanes s
           = (s\<lparr>laneIDs := [1..laneTop s], emgcIDs := [1, laneTop s]\<rparr>, None)"
  using assms by (simp add: distinguishNormalAndEmgcLanes_def laneTop_def Let_def)

lemma distinguishNormalAndEmgcLanes_success:
  assumes "distinguishNormalAndEmgcLanes s = (s1, None)"
  shows "keys (xyByLane s) \<noteq> []"
  using assms by (auto simp: distinguishNormalAndEmgcLanes_def Let_def split: if_splits)

lemma calibrate_success:
  assumes "calibrate A s = (s', None)"
  obtains s1 s2 s3 s4 s5 s6 where
    "distinguishNormalAndEmgcLanes s = (s1, None)"
    "distinguishInnerAndOutboardLaneID A s1 = (s2, None)"
    "distinguishLaneDirection s2 = (s3, None)"
    "calibXYMinMax s3 = (s4, None)"
    "getLaneQuartilesPoints A s4 = (s5, None)"
    "calculateLanesFunction A s5 = (s6, None)"
    "calibCells A s6 = (s', None)"
proof -
  from assms obtain s1 where 1: "distinguishNormalAndEmgcLanes s = (s1, None)"
    and r1: "andThen (distinguishInnerAndOutboardLaneID A s1) (\<lambda>s2.
     andThen (distinguishLaneDirection s2) (\<lambda>s3.
     andThen (calibXYMinMax s3) (\<lambda>s4.
     andThen (getLaneQuartilesPoints A s4) (\<lambda>s5.
     andThen (calculateLanesFunction A s5) (\<lambda>s6.
     calibCells A s6))))) = (s', None)"
    unfolding calibrate_def by (blast dest: andThen_None)
  from r1 obtain s2 where 2: "distinguishInnerAndOutboardLaneID A s1 = (s2, None)"
    and r2: "andThen (distinguishLaneDirection s2) (\<lambda>s3.
     andThen (calibXYMinMax s3) (\<lambda>s4.
     andThen (getLaneQuartilesPoints A s4) (\<lambda>s5.
     andThen (calculateLanesFunction A s5) (\<lambda>s6.
     calibCells A s6)))) = (s', None)"
    by (blast dest: andThen_None)
  from r2 obtain s3 where 3: "distinguishLaneDirection s2 = (s3, None)"
    and r3: "andThen (calibXYMinMax s3) (\<lambda>s4.
     andThen (getLaneQuartilesPoints A s4) (\<lambda>s5.
     andThen (calculateLanesFunction A s5) (\<lambda>s6.
     calibCells A s6))) = (s', None)"
    by (blast dest: andThen_None)
  from r3 obtain s4 where 4: "calibXYMinMax s3 = (s4, None)"
    and r4: "andThen (getLaneQuartilesPoints A s4) (\<lambda>s5.
     andThen (calculateLanesFunction A s5) (\<lambda>s6.
     calibCells A s6)) = (s', None)"
    by (blast dest: andThen_None)
  from r4 obtain s5 where 5: "getLaneQuartilesPoints A s4 = (s5, None)"
    and r5: "andThen (calculateLanesFunction A s5) (\<lambda>s6. calibCells A s6) = (s', None)"
    by (blast dest: andThen_None)
  from r5 obtain s6 where 6: "calculateLanesFunction A s5 = (s6, None)"
    and 7: "calibCells A s6 = (s', None)"
    by (blast dest: andThen_None)
  from 1 2 3 4 5 6 7 show ?thesis by (rule that)
qed



lemma calibrate_emgcIDs:
  assumes "keys (xyByLane s) \<noteq> []"
  shows "emgcIDs (fst (calibrate A s)) = [1, laneTop s]"
    and "laneIDs (fst (calibrate A s)) = [1..laneTop s]"
proof -
  have "keeps (\<lambda>s'. emgcIDs s' = [1, laneTop s] \<and> laneIDs s' = [1..laneTop s]) (calibrate A s)"
    unfolding calibrate_def
    by (intro keeps_andThen)
       (simp_all add: keeps_def distinguishNormalAndEmgcLanes_result [OF assms]
          distinguishInnerAndOutboardLaneID_keeps distinguishLaneDirection_keeps
          calibXYMinMax_keeps getLaneQuartilesPoints_keeps calculateLanesFunction_keeps
          calibCells_keeps)
  then show "emgcIDs (fst (calibrate A s)) = [1, laneTop s]"
    and "laneIDs (fst (calibrate A s)) = [1..laneTop s]"
    by (simp_all add: keeps_def)
qed

text \<open>
  C4. Where the keys of \<open>xyByLane\<close> (the observed lane ids) are not empty and \<open>m\<close>
  is the smallest even number not below their maximum, \<open>_distinguishNormalAndEmgcLanes\<close>
  sets \<open>emgcIDs\<close> to \<open>[1, m]\<close>, two different ids, and no later step of
  \<open>calibrate\<close> changes it; when \<open>calibrate\<close> returns, the entries of \<open>cells\<close> for
  lane \<open>1\<close> and for lane \<open>m\<close> are lists of \<open>False\<close> only.
\<close>

theorem emergency_lanes:
  assumes "keys (xyByLane s) \<noteq> []"
    and "even m" and "Max (set (keys (xyByLane s))) \<le> m"
    and "\<forall>e. even e \<and> Max (set (keys (xyByLane s))) \<le> e \<longrightarrow> m \<le> e"
  shows "emgcIDs (fst (distinguishNormalAndEmgcLanes s)) = [1, m]
       \<and> emgcIDs (fst (calibrate A s)) = [1, m] \<and> m \<noteq> 1
       \<and> (snd (calibrate A s) = None \<longrightarrow>
            (\<exists>n. map_of (cells (fst (calibrate A s))) 1 = Some (replicate n False)
                \<and> map_of (cells (fst (calibrate A s))) m = Some (replicate n False)))"
proof -
  have m: "m = laneTop s" using assms(2-4) by (rule laneTop_unique)
  have a: "emgcIDs (fst (distinguishNormalAndEmgcLanes s)) = [1, m]"
    by (simp add: distinguishNormalAndEmgcLanes_result [OF assms(1)] m)
  have b: "emgcIDs (fst (calibrate A s)) = [1, m]"
    by (simp add: calibrate_emgcIDs [OF assms(1)] m)
  have c: "m \<noteq> 1" using assms(2) by auto
  have d: "\<exists>n. map_of (cells (fst (calibrate A s))) 1 = Some (replicate n False)
                \<and> map_of (cells (fst (calibrate A s))) m = Some (replicate n False)"
    if ok: "snd (calibrate A s) = None"
  proof -
    from ok have "calibrate A s = (fst (calibrate A s), None)"
      by (metis prod.collapse)
    then obtain s6 where 7: "calibCells A s6 = (fst (calibrate A s), None)"
      by (rule calibrate_success)
    have "emgcIDs s6 = [1, m]"
      using calibCells_keeps(1) [of A s6] 7 b by simp
    with calibCells_success [OF 7] show ?thesis by auto
  qed
  from a b c d show ?thesis by blast
qed

subsection \<open>Direction inference\<close>

lemma voteDir_components:
  "x_of (voteDir c) = (if x_of c < 0 then - 1 else 1)"
  "y_of (voteDir c) = (if y_of c < 0 then - 1 else 1)"
  by (simp_all add: voteDir_def Let_def)

lemma getitem_Inr: "getitem d key = Inr val \<longleftrightarrow> map_of d key = Some val"
  by (simp add: getitem_def split: option.splits)


lemma dirLoop_result:
  assumes "dirLoop is s = (t, None)"
  shows "map_of (vDirDict t) i =
           (if i \<in> set is \<and> i \<notin> set (emgcIDs s)
            then map_option voteDir (map_of (vxyCount s) i) else map_of (vDirDict s) i)
         \<and> (i \<in> set is \<and> i \<notin> set (emgcIDs s) \<longrightarrow> map_of (vxyCount s) i \<noteq> None)"
  using assms
proof (induction "is" arbitrary: s)
  case Nil
  then show ?case by simp
next
  case (Cons j rest)
  show ?case
  proof (cases "j \<in> set (emgcIDs s)")
    case True
    with Cons.prems have "dirLoop rest s = (t, None)" by simp
    from Cons.IH [OF this] True show ?thesis by auto
  next
    case False
    with Cons.prems obtain c where c: "map_of (vxyCount s) j = Some c"
      by (cases "getitem (vxyCount s) j") (auto simp: getitem_Inr)
    let ?s = "s\<lparr>vDirDict := AList.update j (voteDir c) (vDirDict s)\<rparr>"
    from Cons.prems False c have "dirLoop rest ?s = (t, None)"
      by (simp add: getitem_def)
    from Cons.IH [OF this] False c show ?thesis
      by (auto simp: update_conv')
  qed
qed


lemma distinguishLaneDirection_success:
  assumes ok: "distinguishLaneDirection s = (s', None)"
    and em: "emgcIDs s = [1, m]" and la: "laneIDs s = [1..m]" and m1: "m \<noteq> 1"
  shows "(\<forall>i. 1 < i \<and> i < m \<longrightarrow>
            (\<exists>c. map_of (vxyCount s) i = Some c \<and> map_of (vDirDict s') i = Some (voteDir c)))
       \<and> map_of (vDirDict s') 1 = map_of (vDirDict s') 2
       \<and> map_of (vDirDict s') 1 \<noteq> None
       \<and> map_of (vDirDict s') m = map_of (vDirDict s') (m - 1)
       \<and> map_of (vDirDict s') m \<noteq> None"
proof -
  let ?s0 = "s\<lparr>vDirDict := []\<rparr>"
  from ok obtain t where t: "dirLoop (laneIDs ?s0) ?s0 = (t, None)"
    and e: "emgcDirLoop (emgcIDs t) t = (s', None)"
    unfolding distinguishLaneDirection_def Let_def by (blast dest: andThen_None)
  have et: "emgcIDs t = [1, m]"
    using dirLoop_keeps(1) [of "laneIDs ?s0" ?s0] t em by simp
  have dt: "map_of (vDirDict t) i =
      (if 1 < i \<and> i < m then map_option voteDir (map_of (vxyCount s) i) else None)" for i
    using dirLoop_result [OF t, of i] em la by auto
  have vt: "1 < i \<and> i < m \<Longrightarrow> map_of (vxyCount s) i \<noteq> None" for i
    using dirLoop_result [OF t, of i] em la by auto
  from e et obtain d1 where d1: "map_of (vDirDict t) 2 = Some d1"
    by (cases "getitem (vDirDict t) 2") (auto simp: getitem_Inr)
  let ?t1 = "t\<lparr>vDirDict := AList.update 1 d1 (vDirDict t)\<rparr>"
  from e et d1 have e2: "emgcDirLoop [m] ?t1 = (s', None)"
    by (simp add: getitem_def)
  from e2 m1 obtain d2 where d2: "map_of (vDirDict ?t1) (m - 1) = Some d2"
    by (cases "getitem (vDirDict ?t1) (m - 1)") (auto simp: getitem_Inr)
  from e2 m1 d2 have s': "s' = ?t1\<lparr>vDirDict := AList.update m d2 (vDirDict ?t1)\<rparr>"
    by (simp add: getitem_def)
  have final: "map_of (vDirDict s') i =
      (if i = m then Some d2 else if i = 1 then Some d1 else map_of (vDirDict t) i)" for i
    by (simp add: s' update_conv')
  from d1 dt [of 2] have m2: "2 < m" by (auto split: if_splits)
  have "map_of (vDirDict s') 1 = map_of (vDirDict s') 2"
    using m2 d1 by (simp add: final)
  moreover have "map_of (vDirDict s') 1 \<noteq> None"
    using m2 by (simp add: final)
  moreover have "map_of (vDirDict s') m = map_of (vDirDict s') (m - 1)"
    using m2 d2 by (simp add: final update_conv')
  moreover have "map_of (vDirDict s') m \<noteq> None"
    by (simp add: final)
  moreover have "\<exists>c. map_of (vxyCount s) i = Some c \<and> map_of (vDirDict s') i = Some (voteDir c)"
    if "1 < i \<and> i < m" for i
    using that vt [of i] dt [of i] by (auto simp: final)
  ultimately show ?thesis by blast
qed

text \<open>
  C8. When \<open>calibrate\<close> returns, with \<open>emgcIDs = [1, m]\<close>: every lane \<open>i\<close> with
  \<open>1 < i < m\<close> has a vote counter \<open>c\<close> and the direction \<open>d\<close> with
  \<open>d['x'] = -1\<close> if \<open>c['x'] < 0\<close> and \<open>+1\<close> otherwise (so also for a vote of
  zero), and the same for \<open>'y'\<close>; the direction of lane \<open>1\<close> is that of lane \<open>2\<close>
  and the direction of lane \<open>m\<close> is that of lane \<open>m - 1\<close>.
\<close>

theorem lane_directions:
  assumes "calibrate A s = (s', None)"
  shows "\<exists>m. emgcIDs s' = [1, m] \<and> laneIDs s' = [1..m]
       \<and> (\<forall>i. 1 < i \<and> i < m \<longrightarrow>
            (\<exists>c d. map_of (vxyCount s) i = Some c \<and> map_of (vDirDict s') i = Some d
               \<and> x_of d = (if x_of c < 0 then - 1 else 1)
               \<and> y_of d = (if y_of c < 0 then - 1 else 1)))
       \<and> map_of (vDirDict s') 1 = map_of (vDirDict s') 2
       \<and> map_of (vDirDict s') 1 \<noteq> None
       \<and> map_of (vDirDict s') m = map_of (vDirDict s') (m - 1)
       \<and> map_of (vDirDict s') m \<noteq> None"
proof -
  from assms obtain s1 s2 s3 s4 s5 s6 where
    1: "distinguishNormalAndEmgcLanes s = (s1, None)"
    and 2: "distinguishInnerAndOutboardLaneID A s1 = (s2, None)"
    and 3: "distinguishLaneDirection s2 = (s3, None)"
    and 4: "calibXYMinMax s3 = (s4, None)"
    and 5: "getLaneQuartilesPoints A s4 = (s5, None)"
    and 6: "calculateLanesFunction A s5 = (s6, None)"
    and 7: "calibCells A s6 = (s', None)"
    by (rule calibrate_success)
  define m where "m = laneTop s"
  have ne: "keys (xyByLane s) \<noteq> []"
    using 1 by (rule distinguishNormalAndEmgcLanes_success)
  have s1: "s1 = s\<lparr>laneIDs := [1..m], emgcIDs := [1, m]\<rparr>"
    using 1 distinguishNormalAndEmgcLanes_result [OF ne] by (simp add: m_def)
  have s2: "emgcIDs s2 = [1, m]" "laneIDs s2 = [1..m]" "vxyCount s2 = vxyCount s"
    using distinguishInnerAndOutboardLaneID_keeps(1,2,3) [of A s1] 2 by (simp_all add: s1)
  have m1: "m \<noteq> 1" using laneTop_even [of s] by (auto simp: m_def)
  have fin: "emgcIDs s' = [1, m]" "laneIDs s' = [1..m]"
    using calibrate_emgcIDs [OF ne, of A] assms by (simp_all add: m_def)
  have "vDirDict s' = vDirDict s6" using calibCells_keeps(4) [of A s6] 7 by simp
  also have "\<dots> = vDirDict s5" using calculateLanesFunction_keeps(4) [of A s5] 6 by simp
  also have "\<dots> = vDirDict s4" using getLaneQuartilesPoints_keeps(4) [of A s4] 5 by simp
  also have "\<dots> = vDirDict s3" using calibXYMinMax_keeps(4) [of s3] 4 by simp
  finally have vd: "vDirDict s' = vDirDict s3" .
  note st = distinguishLaneDirection_success [OF 3 s2(1,2) m1, unfolded s2(3), folded vd]
  have "\<exists>c d. map_of (vxyCount s) i = Some c \<and> map_of (vDirDict s') i = Some d
               \<and> x_of d = (if x_of c < 0 then - 1 else 1)
               \<and> y_of d = (if y_of c < 0 then - 1 else 1)"
    if "1 < i \<and> i < m" for i
  proof -
    from st that obtain c where "map_of (vxyCount s) i = Some c"
      and "map_of (vDirDict s') i = Some (voteDir c)" by blast
    then show ?thesis by (simp add: voteDir_components)
  qed
  with st fin show ?thesis by blast
qed

subsection \<open>Lanes with a vote counter have samples\<close>
















subsection \<open>Concrete calibrations\<close>

text \<open>
  The concrete calibrators in closed form, the run of \<open>calibrate\<close> on \<open>observed\<close>
  step by step, and the instances of the theorems above on them.
\<close>

lemmas run_defs =
  executeAll_def run_def runTarget_def addVote_def andThen_def keys_def
  Calibrator_init_def target_def Let_def

lemma observed_eq:
  "observed =
     \<lparr>clbPath = ''clb.yml'', fps = 20, laneWidth = 3.75, emgcWidth = 3.5,
       cellLen = 50, qMerge = 0, count = 2,
       xyByLane = [(2, [(2, 10), (2, 30)]), (3, [(6, 60), (6, 40)])],
       vxyCount = [(2, \<lparr>x_of = 0, y_of = 2\<rparr>), (3, \<lparr>x_of = - 1, y_of = - 2\<rparr>)],
       laneIDs = [], emgcIDs = [], vDirDict = [], xyMinMax = [], globalXYMinMax = [],
       polyPts = [], coef = [], cells = [], intID = None, extID = None\<rparr>"
  by (simp add: observed_def run_defs)



lemma calibrate_observed: "calibrate exampleAlgorithms observed = (calibrated, None)"
proof -
  define st1 where "st1 = observed\<lparr>laneIDs := [1, 2, 3, 4], emgcIDs := [1, 4]\<rparr>"
  define st2 where "st2 = st1\<lparr>intID := Some 3, extID := Some 2\<rparr>"
  define st3 where "st3 = st2\<lparr>vDirDict :=
       [(2, \<lparr>x_of = 1, y_of = 1\<rparr>), (3, \<lparr>x_of = - 1, y_of = - 1\<rparr>),
        (1, \<lparr>x_of = 1, y_of = 1\<rparr>), (4, \<lparr>x_of = - 1, y_of = - 1\<rparr>)]\<rparr>"
  define st4 where "st4 = st3\<lparr>xyByLane := [(2, [(2, 10), (2, 30)]), (3, [(6, 40), (6, 60)])],
             xyMinMax := [(2, [2, 2, 10, 30]), (3, [6, 6, 40, 60])],
             globalXYMinMax := [0, 6, 0, 60]\<rparr>"
  define st5 where "st5 = st4\<lparr>polyPts := [(2, [(2, 10), (2, 30)]), (3, [(6, 40), (6, 60)])]\<rparr>"
  define st6 where "st6 = st5\<lparr>coef :=
       [(2, [0, 0, 2]), (3, [0, 0, 6]), (1, [0, 0, - 1.625]), (4, [0, 0, 9.625])]\<rparr>"
  note sts = st1_def st2_def st3_def st4_def st5_def st6_def observed_eq
  have 1: "distinguishNormalAndEmgcLanes observed = (st1, None)"
    by (simp add: sts distinguishNormalAndEmgcLanes_def keys_def Let_def upto_rec1)
  have 2: "distinguishInnerAndOutboardLaneID exampleAlgorithms st1 = (st2, None)"
    by (simp add: sts distinguishInnerAndOutboardLaneID_def
        exampleAlgorithms_def attempt_def item_def position_def getitem_def Let_def)
  have 3: "distinguishLaneDirection st2 = (st3, None)"
    by (simp add: sts distinguishLaneDirection_def andThen_def getitem_def voteDir_def Let_def)
  have 4: "calibXYMinMax st3 = (st4, None)"
    by (simp add: sts calibXYMinMax_def keys_def getitem_def Let_def)
  have 5: "getLaneQuartilesPoints exampleAlgorithms st4 = (st5, None)"
    by (simp add: sts getLaneQuartilesPoints_def exampleAlgorithms_def getitem_def Let_def)
  have 6: "calculateLanesFunction exampleAlgorithms st5 = (st6, None)"
    by (simp add: sts calculateLanesFunction_def exampleAlgorithms_def getitem_def attempt_def
        andThen_def attribute_def item_def position_def derivativeAt0_def Let_def)
  have cuts: "cutPts exampleAlgorithms 0 60 50 = Inr [0, 50, 100]"
    by (simp add: exampleAlgorithms_def upt_rec)
  have 7: "calibCells exampleAlgorithms st6 = (calibrated, None)"
    by (simp add: sts calibrated_def calibCells_def cuts keys_def getitem_def attempt_def
        andThen_def item_def validity_def position_def Let_def eval_nat_numeral)
  show ?thesis
    by (simp add: calibrate_def andThen_simps 1 2 3 4 5 6 7)
qed

theorem emergency_lanes_witness:
  "keys (xyByLane observed) \<noteq> [] \<and> even (4 :: int)
   \<and> Max (set (keys (xyByLane observed))) \<le> 4
   \<and> emgcIDs (fst (distinguishNormalAndEmgcLanes observed)) = [1, 4]
   \<and> emgcIDs (fst (calibrate exampleAlgorithms observed)) = [1, 4]
   \<and> snd (calibrate exampleAlgorithms observed) = None
   \<and> map_of (cells (fst (calibrate exampleAlgorithms observed))) 1 = Some [False, False]
   \<and> map_of (cells (fst (calibrate exampleAlgorithms observed))) 4 = Some [False, False]"
proof -
  have h1: "keys (xyByLane observed) \<noteq> []" by (simp add: observed_eq keys_def)
  have h2: "even (4 :: int)" by simp
  have mx: "Max (set (keys (xyByLane observed))) = 3" by (simp add: observed_eq keys_def)
  have h3: "Max (set (keys (xyByLane observed))) \<le> 4" by (simp add: mx)
  have h4: "\<forall>e. even e \<and> Max (set (keys (xyByLane observed))) \<le> e \<longrightarrow> 4 \<le> e"
    unfolding mx by presburger
  from emergency_lanes [OF h1 h2 h3 h4, of exampleAlgorithms] h1 h3
  show ?thesis
    by (simp add: calibrate_observed calibrated_def)
qed

theorem lane_directions_witness:
  "calibrate exampleAlgorithms observed = (calibrated, None)
   \<and> emgcIDs calibrated = [1, 4]
   \<and> map_of (vxyCount observed) 2 = Some \<lparr>x_of = 0, y_of = 2\<rparr>
   \<and> map_of (vDirDict calibrated) 2 = Some \<lparr>x_of = 1, y_of = 1\<rparr>
   \<and> map_of (vxyCount observed) 3 = Some \<lparr>x_of = - 1, y_of = - 2\<rparr>
   \<and> map_of (vDirDict calibrated) 3 = Some \<lparr>x_of = - 1, y_of = - 1\<rparr>
   \<and> map_of (vDirDict calibrated) 1 = map_of (vDirDict calibrated) 2
   \<and> map_of (vDirDict calibrated) 4 = map_of (vDirDict calibrated) 3"
  using lane_directions [OF calibrate_observed] calibrate_observed
  by (simp add: calibrated_def observed_eq)



end
